theory Spec2Isabelle
  imports Main
begin

section \<open>Python strings and sequences\<close>

text \<open>
  A Python \<^verbatim>\<open>str\<close> is a sequence of Unicode code points and \<^verbatim>\<open>len\<close> counts code
  points. The ellipsis glyph written by \<^verbatim>\<open>truncate_string\<close> is the single code point
  U+2026, which is no 8-bit \<^typ>\<open>char\<close>, so a string is modelled as the list of its code
  points. \<open>str\<close> embeds an ASCII literal.
\<close>

type_synonym pystr = "nat list"

definition str :: "string \<Rightarrow> pystr" where
  "str s = map of_char s"

text \<open>The glyph \<^verbatim>\<open>'\<dots>'\<close> of line 48, U+2026, and the ASCII characters the code names.\<close>

definition ELLIPSIS :: nat where
  "ELLIPSIS = 8230"

definition ESC :: nat where
  "ESC = 27"

definition SPACE :: nat where
  "SPACE = 32"

definition QUOTE :: nat where
  "QUOTE = 34"

definition HASH :: nat where
  "HASH = 35"

definition MINUS :: nat where
  "MINUS = 45"

definition SLASH :: nat where
  "SLASH = 47"

definition TILDE :: nat where
  "TILDE = 126"

text \<open>
  The exceptions that the code raises itself (\<^verbatim>\<open>RuntimeError\<close>) or that its own
  expressions raise: an index out of range, a missing dictionary key, an attribute read
  on \<^verbatim>\<open>None\<close>, and \<^verbatim>\<open>next\<close> on an exhausted iterator.
\<close>

datatype error = IndexError | KeyError | AttributeError | RuntimeError | StopIteration

definition and_then :: "error + 'a \<Rightarrow> ('a \<Rightarrow> error + 'b) \<Rightarrow> error + 'b" where
  "and_then r f = (case r of Inl e \<Rightarrow> Inl e | Inr v \<Rightarrow> f v)"

text \<open>
  The slices \<^verbatim>\<open>xs[0:n]\<close> and \<^verbatim>\<open>xs[n:]\<close>: a negative bound counts from the end, and
  every bound is clipped to the sequence, so a slice never raises.
\<close>

definition slice_to :: "int \<Rightarrow> 'a list \<Rightarrow> 'a list" where
  "slice_to n xs = take (nat (if n < 0 then int (length xs) + n else n)) xs"

definition slice_from :: "int \<Rightarrow> 'a list \<Rightarrow> 'a list" where
  "slice_from n xs = drop (nat (if n < 0 then int (length xs) + n else n)) xs"

text \<open>The subscript \<^verbatim>\<open>xs[i]\<close>: a negative index counts from the end; out of range it raises.\<close>

definition getitem :: "'a list \<Rightarrow> int \<Rightarrow> error + 'a" where
  "getitem xs i =
     (if 0 \<le> i \<and> i < int (length xs) then Inr (xs ! nat i)
      else if i < 0 \<and> - i \<le> int (length xs) then Inr (xs ! nat (int (length xs) + i))
      else Inl IndexError)"

text \<open>
  \<^verbatim>\<open>s.split(sep)\<close> for a one-character separator: every occurrence of the separator
  ends a field, empty fields are kept, and the result is never empty (the \<open>[]\<close> branch
  of the case is never taken).
\<close>

fun split_on :: "'a \<Rightarrow> 'a list \<Rightarrow> 'a list list" where
  "split_on sep [] = [[]]"
| "split_on sep (c # cs) =
     (if c = sep then [] # split_on sep cs
      else (case split_on sep cs of [] \<Rightarrow> [[c]] | w # ws \<Rightarrow> (c # w) # ws))"

text \<open>\<^verbatim>\<open>sep.join(words)\<close>.\<close>

fun join :: "'a list \<Rightarrow> 'a list list \<Rightarrow> 'a list" where
  "join sep [] = []"
| "join sep [w] = w"
| "join sep (w # ws) = w @ sep @ join sep ws"

text \<open>\<^verbatim>\<open>s.replace(c, '')\<close> for a one-character \<^verbatim>\<open>c\<close>: every occurrence is removed.\<close>

definition remove_char :: "nat \<Rightarrow> pystr \<Rightarrow> pystr" where
  "remove_char c s = filter (\<lambda>x. x \<noteq> c) s"

text \<open>
  \<^verbatim>\<open>s.split()\<close> with no separator splits at runs of whitespace and keeps no empty
  field. \<open>isspace\<close> lists the code points that Python's \<^verbatim>\<open>str\<close> counts as whitespace.
\<close>

definition isspace :: "nat \<Rightarrow> bool" where
  "isspace c \<longleftrightarrow>
     (9 \<le> c \<and> c \<le> 13) \<or> (28 \<le> c \<and> c \<le> 32) \<or> c = 133 \<or> c = 160 \<or> c = 5760 \<or>
     (8192 \<le> c \<and> c \<le> 8202) \<or> c = 8232 \<or> c = 8233 \<or> c = 8239 \<or> c = 8287 \<or>
     c = 12288"

fun split_whitespace :: "pystr \<Rightarrow> pystr \<Rightarrow> pystr list" where
  "split_whitespace word [] = (if word = [] then [] else [word])"
| "split_whitespace word (c # cs) =
     (if isspace c then (if word = [] then [] else [word]) @ split_whitespace [] cs
      else split_whitespace (word @ [c]) cs)"

text \<open>The substring test \<^verbatim>\<open>sub in s\<close>.\<close>

fun contains :: "'a list \<Rightarrow> 'a list \<Rightarrow> bool" where
  "contains sub [] = (sub = [])"
| "contains sub (c # cs) = (take (length sub) (c # cs) = sub \<or> contains sub cs)"

text \<open>
  \<^verbatim>\<open>c.upper()\<close> of a one-character string. On ASCII it maps \<^verbatim>\<open>a\<close>..\<^verbatim>\<open>z\<close> to
  \<^verbatim>\<open>A\<close>..\<^verbatim>\<open>Z\<close> and leaves every other character alone. Beyond ASCII Python reads
  the Unicode case tables, which are no part of this repository and may give more than
  one character; they are the parameter \<open>table\<close>.
\<close>

definition upper :: "(nat \<Rightarrow> pystr) \<Rightarrow> nat \<Rightarrow> pystr" where
  "upper table c =
     (if 97 \<le> c \<and> c \<le> 122 then [c - 32] else if c < 128 then [c] else table c)"

text \<open>
  \<^verbatim>\<open>re.sub('[^A-Z]+', '', s, 0)\<close>: every run of characters other than the capital
  letters \<^verbatim>\<open>A\<close>..\<^verbatim>\<open>Z\<close> is deleted, so exactly the capital letters remain.
\<close>

definition is_capital :: "nat \<Rightarrow> bool" where
  "is_capital c \<longleftrightarrow> 65 \<le> c \<and> c \<le> 90"

definition sub_non_capitals :: "pystr \<Rightarrow> pystr" where
  "sub_non_capitals s = filter is_capital s"

section \<open>Module constants and functions\<close>

definition DISTRIBUTION_RESOURCE_TYPE_LINK :: pystr where
  "DISTRIBUTION_RESOURCE_TYPE_LINK = str ''https://api.launchpad.net/devel/#distribution''"

definition DISTRIBUTION_SOURCE_PACKAGE_RESOURCE_TYPE_LINK :: pystr where
  "DISTRIBUTION_SOURCE_PACKAGE_RESOURCE_TYPE_LINK =
     str ''https://api.launchpad.net/devel/#distribution_source_package''"

definition SOURCE_PACKAGE_RESOURCE_TYPE_LINK :: pystr where
  "SOURCE_PACKAGE_RESOURCE_TYPE_LINK = str ''https://api.launchpad.net/devel/#source_package''"

definition PROJECT_RESOURCE_TYPE_LINK :: pystr where
  "PROJECT_RESOURCE_TYPE_LINK = str ''https://api.launchpad.net/devel/#project''"

text \<open>The colour sequences of lines 37-40: the escape character, then the quoted text.\<close>

definition COLOR_CYAN :: pystr where
  "COLOR_CYAN = ESC # str ''[0;36m''"

definition COLOR_GREEN :: pystr where
  "COLOR_GREEN = ESC # str ''[0;32m''"

definition COLOR_YELLOW :: pystr where
  "COLOR_YELLOW = ESC # str ''[0;33m''"

definition COLOR_RESET :: pystr where
  "COLOR_RESET = ESC # str ''[0m''"

text \<open>
  \<^verbatim>\<open>truncate_string(text, length)\<close>, lines 43-49. \<^verbatim>\<open>truncated[:-1]\<close> drops the last
  character (and leaves the empty string empty), which is \<^const>\<open>butlast\<close>.
\<close>

definition truncate_string :: "pystr \<Rightarrow> int \<Rightarrow> pystr" where
  "truncate_string text n =
     (let str_text = text;
          truncated = slice_to n str_text
      in if int (length str_text) > n then butlast truncated @ [ELLIPSIS] else truncated)"

text \<open>\<^verbatim>\<open>mark(text, color)\<close>, lines 52-54.\<close>

definition mark :: "pystr \<Rightarrow> pystr \<Rightarrow> pystr" where
  "mark text color = color @ text @ COLOR_RESET"

text \<open>
  \<^verbatim>\<open>find_changes_bugs(changes_url)\<close>, lines 57-65, on the parsed changes file: the
  value of its \<^verbatim>\<open>Launchpad-Bugs-Fixed\<close> field when it has one. The \<^verbatim>\<open>KeyError\<close> of
  a missing field is caught and gives the empty list.
\<close>

definition find_changes_bugs :: "pystr option \<Rightarrow> pystr list" where
  "find_changes_bugs changes =
     (case changes of None \<Rightarrow> [] | Some bugs_str \<Rightarrow> split_whitespace [] bugs_str)"

section \<open>The remote objects\<close>

text \<open>
  What the code reads of the Launchpad objects it is handed. Of a task of the parent bug
  (\<^verbatim>\<open>obj.bug.bug_tasks\<close>) it reads \<^verbatim>\<open>str(lp_task)\<close>, the task's link, and
  \<^verbatim>\<open>lp_task.status\<close>. Of the task it wraps it reads also the title, the importance,
  the assignee link (or \<^verbatim>\<open>None\<close>), \<^verbatim>\<open>target.resource_type_link\<close>, and the bug's
  tags, date and tasks. The remote objects do not change during a run.
\<close>

record bug_task =
  lp_link :: pystr
  lp_status :: pystr

record lp_task = bug_task +
  lp_title :: pystr
  lp_importance :: pystr
  lp_assignee_link :: "pystr option"
  lp_resource_type_link :: pystr
  lp_tags :: "pystr list"
  lp_date_last_updated :: int
  lp_bug_tasks :: "bug_task list"

text \<open>
  An upload of the unapproved queue. \<open>copy_archive_readable\<close> is false when reading
  \<^verbatim>\<open>copy_source_archive.self_link\<close> raises \<^verbatim>\<open>ValueError\<close>; \<open>published_sources\<close> is
  what \<^verbatim>\<open>copy_source_archive.getPublishedSources(...)\<close> yields, each entry given by
  its \<^verbatim>\<open>sourceFileUrls()\<close>; \<open>changes_file\<close> is the \<^verbatim>\<open>Launchpad-Bugs-Fixed\<close> field
  of the file served at \<open>changes_file_url\<close>, when the file has the field.
\<close>

record upload =
  contains_source :: bool
  contains_copy :: bool
  source_file_urls :: "pystr list"
  copy_archive_readable :: bool
  published_sources :: "pystr list list"
  changes_file_url :: "pystr option"
  changes_file :: "pystr option"

text \<open>
  The API session \<^verbatim>\<open>Task.LP\<close>: for a series name and a source package name, the result
  of \<^verbatim>\<open>getPackageUploads(pocket="Proposed", status="Unapproved", exact_match=True,
  name=...)\<close> on that series of the \<^verbatim>\<open>ubuntu\<close> distribution.
\<close>

record launchpad =
  package_uploads :: "pystr \<Rightarrow> pystr \<Rightarrow> upload list"

text \<open>
  The requests made to the session and to the network, in the order they are made. Every
  function that talks to Launchpad returns its result together with the requests it made.
\<close>

datatype api_call =
    Get_distribution pystr
  | Get_series pystr
  | Get_package_uploads pystr pystr
  | Source_file_urls
  | Copy_source_archive
  | Get_published_sources
  | Urlopen pystr

definition after :: "api_call list \<Rightarrow> 'a \<times> api_call list \<Rightarrow> 'a \<times> api_call list" where
  "after calls r = (fst r, calls @ snd r)"

text \<open>
  \<^verbatim>\<open>get_upload_source_urls(upload)\<close>, lines 68-95. The \<^verbatim>\<open>ValueError\<close> of the probe
  becomes a \<^verbatim>\<open>RuntimeError\<close>; \<^verbatim>\<open>next(iter(...))\<close> on an archive that publishes no
  matching source raises \<^verbatim>\<open>StopIteration\<close>.
\<close>

definition get_upload_source_urls :: "upload \<Rightarrow> (error + pystr list) \<times> api_call list" where
  "get_upload_source_urls u =
     (if contains_source u then (Inr (source_file_urls u), [Source_file_urls])
      else if contains_copy u then
        (if \<not> copy_archive_readable u then (Inl RuntimeError, [Copy_source_archive])
         else (case published_sources u of
                 [] \<Rightarrow> (Inl StopIteration, [Copy_source_archive, Get_published_sources])
               | urls # _ \<Rightarrow>
                   (Inr urls, [Copy_source_archive, Get_published_sources, Source_file_urls])))
      else (Inl RuntimeError, []))"

section \<open>The class Task\<close>

text \<open>
  The class attributes of lines 107-114 that are set once at startup: the two date
  thresholds, the session, and the two lists of statuses.
\<close>

record env =
  AGE :: "int option"
  OLD :: "int option"
  LP :: "launchpad option"
  NOWORK_BUG_STATUSES :: "pystr list"
  OPEN_BUG_STATUSES :: "pystr list"

definition LONG_URL_ROOT :: pystr where
  "LONG_URL_ROOT = str ''https://pad.lv/''"

definition SHORTLINK_ROOT :: pystr where
  "SHORTLINK_ROOT = str ''LP: #''"

text \<open>
  The instance attributes. \<open>ident\<close> is the identity of the object, which is what the
  caches of \<^verbatim>\<open>lru_cache\<close> compare: the class defines neither \<^verbatim>\<open>__eq__\<close> nor
  \<^verbatim>\<open>__hash__\<close>.
\<close>

record Task =
  ident :: nat
  subscribed :: "bool option"
  last_activity_ours :: "bool option"
  distro :: "pystr option"
  source_package_name :: "pystr option"
  series :: "pystr option"
  obj :: "lp_task option"

text \<open>\<^verbatim>\<open>Task.__init__(self, lp_task=None)\<close>, lines 116-137.\<close>

definition Task_init :: "nat \<Rightarrow> lp_task option \<Rightarrow> error + Task" where
  "Task_init i lp_task =
     (case lp_task of
        None \<Rightarrow>
          Inr \<lparr>ident = i, subscribed = None, last_activity_ours = None, distro = None,
               source_package_name = None, series = None, obj = None\<rparr>
      | Some lp \<Rightarrow>
          (let task_elements = split_on SLASH (lp_link lp) in
           and_then (getitem task_elements 4) (\<lambda>d.
           and_then (getitem task_elements (- 3)) (\<lambda>p.
           and_then (getitem task_elements 5) (\<lambda>s.
             Inr \<lparr>ident = i, subscribed = None, last_activity_ours = None, distro = Some d,
                  source_package_name = Some p,
                  series = Some (if s = str ''+source'' then str ''-devel'' else s),
                  obj = Some lp\<rparr>)))))"

text \<open>
  The properties of lines 216-295. Each reads \<^verbatim>\<open>self.obj\<close>, and an attribute read on
  \<^verbatim>\<open>None\<close> raises \<^verbatim>\<open>AttributeError\<close>. The names \<open>title\<close>, \<open>number\<close>, ... are the
  values that the bodies of the properties compute; the \<^verbatim>\<open>lru_cache\<close> around them is
  modelled below.
\<close>

definition title :: "Task \<Rightarrow> error + pystr" where
  "title self = (case obj self of None \<Rightarrow> Inl AttributeError | Some lp \<Rightarrow> Inr (lp_title lp))"

definition number :: "Task \<Rightarrow> error + pystr" where
  "number self =
     and_then (title self) (\<lambda>t.
     and_then (getitem (split_on SPACE t) 1) (\<lambda>w. Inr (remove_char HASH w)))"

definition url :: "Task \<Rightarrow> error + pystr" where
  "url self = and_then (number self) (\<lambda>n. Inr (LONG_URL_ROOT @ n))"

definition shortlink :: "Task \<Rightarrow> error + pystr" where
  "shortlink self = and_then (number self) (\<lambda>n. Inr (SHORTLINK_ROOT @ n))"

definition tags :: "Task \<Rightarrow> error + pystr list" where
  "tags self = (case obj self of None \<Rightarrow> Inl AttributeError | Some lp \<Rightarrow> Inr (lp_tags lp))"

definition date_last_updated :: "Task \<Rightarrow> error + int" where
  "date_last_updated self =
     (case obj self of None \<Rightarrow> Inl AttributeError | Some lp \<Rightarrow> Inr (lp_date_last_updated lp))"

definition importance :: "Task \<Rightarrow> error + pystr" where
  "importance self =
     (case obj self of None \<Rightarrow> Inl AttributeError | Some lp \<Rightarrow> Inr (lp_importance lp))"

definition src :: "Task \<Rightarrow> error + pystr" where
  "src self = and_then (title self) (\<lambda>t. getitem (split_on SPACE t) 3)"

text \<open>\<^verbatim>\<open>assignee\<close> is the user name, or \<^verbatim>\<open>False\<close> (here \<open>None\<close>) for a task without one.\<close>

definition assignee :: "Task \<Rightarrow> error + pystr option" where
  "assignee self =
     (case obj self of
        None \<Rightarrow> Inl AttributeError
      | Some lp \<Rightarrow>
          (case lp_assignee_link lp of
             None \<Rightarrow> Inr None
           | Some link \<Rightarrow>
               if link = [] then Inr None
               else and_then (getitem (split_on TILDE link) 1) (\<lambda>a. Inr (Some a))))"

definition status :: "Task \<Rightarrow> error + pystr" where
  "status self = (case obj self of None \<Rightarrow> Inl AttributeError | Some lp \<Rightarrow> Inr (lp_status lp))"

text \<open>The dictionary of lines 289-294: a link that is no key of it raises \<^verbatim>\<open>KeyError\<close>.\<close>

definition start_field :: "pystr \<Rightarrow> error + int" where
  "start_field link =
     (if link = DISTRIBUTION_RESOURCE_TYPE_LINK then Inr 4
      else if link = DISTRIBUTION_SOURCE_PACKAGE_RESOURCE_TYPE_LINK then Inr 5
      else if link = SOURCE_PACKAGE_RESOURCE_TYPE_LINK then Inr 6
      else if link = PROJECT_RESOURCE_TYPE_LINK then Inr 7
      else Inl KeyError)"

definition short_title :: "Task \<Rightarrow> error + pystr" where
  "short_title self =
     (case obj self of
        None \<Rightarrow> Inl AttributeError
      | Some lp \<Rightarrow>
          and_then (start_field (lp_resource_type_link lp)) (\<lambda>k.
          and_then (title self) (\<lambda>t.
            Inr (remove_char QUOTE (join [SPACE] (slice_from k (split_on SPACE t)))))))"





text \<open>
  The loop of \<^verbatim>\<open>_is_in_unapproved\<close>, lines 313-327, over the uploads of the queue.
  Only \<^verbatim>\<open>RuntimeError\<close> is caught; an upload without a changes file URL (\<^verbatim>\<open>None\<close> or
  empty) is passed over. \<open>num\<close> is \<^verbatim>\<open>self.number\<close>, read after the changes file is
  fetched.
\<close>

fun scan_uploads :: "error + pystr \<Rightarrow> upload list \<Rightarrow> (error + bool) \<times> api_call list" where
  "scan_uploads num [] = (Inr False, [])"
| "scan_uploads num (u # us) =
     (case get_upload_source_urls u of
        (Inl e, calls) \<Rightarrow>
          if e = RuntimeError then after calls (scan_uploads num us) else (Inl e, calls)
      | (Inr _, calls) \<Rightarrow>
          (case changes_file_url u of
             None \<Rightarrow> after calls (scan_uploads num us)
           | Some changes_url \<Rightarrow>
               if changes_url = [] then after calls (scan_uploads num us)
               else
                 (let bug_numbers = find_changes_bugs (changes_file u) in
                  case num of
                    Inl e \<Rightarrow> (Inl e, calls @ [Urlopen changes_url])
                  | Inr n \<Rightarrow>
                      if n \<in> set bug_numbers then (Inr True, calls @ [Urlopen changes_url])
                      else after (calls @ [Urlopen changes_url]) (scan_uploads num us))))"

text \<open>
  \<^verbatim>\<open>Task._is_in_unapproved(self)\<close>, lines 297-327. The result is \<^verbatim>\<open>None\<close>, \<^verbatim>\<open>True\<close>
  or \<^verbatim>\<open>False\<close>. Line 300 looks the distribution up on the session before line 302
  tests the series; with no session set (\<^verbatim>\<open>Task.LP = None\<close>) it raises. The source
  package name is read when the queue is first asked for, after the series is fetched.
\<close>

definition is_in_unapproved :: "env \<Rightarrow> Task \<Rightarrow> (error + bool option) \<times> api_call list" where
  "is_in_unapproved env self =
     (case LP env of
        None \<Rightarrow> (Inl AttributeError, [])
      | Some lp \<Rightarrow>
          after [Get_distribution (str ''ubuntu'')]
            (case series self of
               None \<Rightarrow> (Inr None, [])
             | Some s \<Rightarrow>
                 if s = [] \<or> s = str ''-devel'' then (Inr None, [])
                 else
                   after [Get_series s]
                     (case src self of
                        Inl e \<Rightarrow> (Inl e, [])
                      | Inr name \<Rightarrow>
                          after [Get_package_uploads s name]
                            (case scan_uploads (number self) (package_uploads lp s name) of
                               (Inl e, calls) \<Rightarrow> (Inl e, calls)
                             | (Inr found, calls) \<Rightarrow> (Inr (Some found), calls)))))"

text \<open>
  A Python \<^verbatim>\<open>dict\<close> keeps its keys in the order of their first insertion; assigning to a
  key that is present replaces the value and leaves the key where it is.
\<close>

fun dict_setitem :: "'k \<Rightarrow> 'v \<Rightarrow> ('k \<times> 'v) list \<Rightarrow> ('k \<times> 'v) list" where
  "dict_setitem k v [] = [(k, v)]"
| "dict_setitem k v (entry # entries) =
     (if fst entry = k then (k, v) # entries else entry # dict_setitem k v entries)"

text \<open>
  The loop of \<^verbatim>\<open>Task._sibling_tasks\<close>, lines 333-344. \<open>source\<close> is \<^verbatim>\<open>self.src\<close>, which
  is read only for a task of \<^verbatim>\<open>ubuntu\<close>.
\<close>

fun collect_siblings ::
  "error + pystr \<Rightarrow> bug_task list \<Rightarrow> (pystr \<times> bug_task) list \<Rightarrow> error + (pystr \<times> bug_task) list"
where
  "collect_siblings source [] siblings = Inr siblings"
| "collect_siblings source (sibling # rest) siblings =
     (let task_elements = split_on SLASH (lp_link sibling) in
      and_then (getitem task_elements 4) (\<lambda>d.
        if d \<noteq> str ''ubuntu'' then collect_siblings source rest siblings
        else
          and_then (getitem task_elements (- 3)) (\<lambda>p.
          and_then source (\<lambda>name.
            if p \<noteq> name then collect_siblings source rest siblings
            else
              and_then (getitem task_elements 5) (\<lambda>s.
                collect_siblings source rest
                  (dict_setitem (if s = str ''+source'' then str ''-devel'' else s) sibling
                     siblings))))))"

definition sibling_tasks :: "Task \<Rightarrow> error + (pystr \<times> bug_task) list" where
  "sibling_tasks self =
     (case obj self of
        None \<Rightarrow> Inl AttributeError
      | Some lp \<Rightarrow> collect_siblings (src self) (lp_bug_tasks lp) [])"

text \<open>
  The loop of \<^verbatim>\<open>Task.to_dict\<close>, lines 151-161, which fills \<^verbatim>\<open>sibling_task_status\<close>.
  \<^verbatim>\<open>self._is_in_unapproved()\<close> is called for every sibling whose status is not one of
  \<^verbatim>\<open>NOWORK_BUG_STATUSES\<close>, and only its truth value is used.
\<close>

fun classify_siblings ::
  "env \<Rightarrow> Task \<Rightarrow> (pystr \<times> bug_task) list \<Rightarrow> (pystr \<times> pystr) list \<Rightarrow>
     (error + (pystr \<times> pystr) list) \<times> api_call list"
where
  "classify_siblings env self [] sibling_task_status = (Inr sibling_task_status, [])"
| "classify_siblings env self ((s, sibling) # rest) sibling_task_status =
     (if lp_status sibling \<in> set (NOWORK_BUG_STATUSES env) then
        classify_siblings env self rest (dict_setitem s (str ''closed'') sibling_task_status)
      else
        (case is_in_unapproved env self of
           (Inl e, calls) \<Rightarrow> (Inl e, calls)
         | (Inr unapproved, calls) \<Rightarrow>
             after calls
               (if unapproved = Some True then
                  classify_siblings env self rest
                    (dict_setitem s (str ''unapproved'') sibling_task_status)
                else if lp_status sibling \<in> set (OPEN_BUG_STATUSES env) then
                  classify_siblings env self rest
                    (dict_setitem s (str ''open'') sibling_task_status)
                else
                  classify_siblings env self rest
                    (dict_setitem s (str ''pending'') sibling_task_status))))"

text \<open>\<^verbatim>\<open>_is_updated\<close>, \<^verbatim>\<open>_is_old\<close>, lines 382-386: \<^verbatim>\<open>a and b\<close> is \<^verbatim>\<open>a\<close> when
  \<^verbatim>\<open>a\<close> is \<^verbatim>\<open>None\<close>, and \<^verbatim>\<open>b\<close> is not evaluated then.\<close>

definition is_updated :: "env \<Rightarrow> Task \<Rightarrow> error + bool option" where
  "is_updated env self =
     (case AGE env of
        None \<Rightarrow> Inr None
      | Some age \<Rightarrow> and_then (date_last_updated self) (\<lambda>d. Inr (Some (d > age))))"

definition is_old :: "env \<Rightarrow> Task \<Rightarrow> error + bool option" where
  "is_old env self =
     (case OLD env of
        None \<Rightarrow> Inr None
      | Some old \<Rightarrow> and_then (date_last_updated self) (\<lambda>d. Inr (Some (d < old))))"

text \<open>\<^verbatim>\<open>_is_verification_needed\<close>, \<^verbatim>\<open>_is_verification_done\<close>, lines 388-392.\<close>

definition is_verification_needed :: "Task \<Rightarrow> error + bool" where
  "is_verification_needed self =
     and_then (tags self) (\<lambda>ts. Inr (list_ex (contains (str ''verification-needed-'')) ts))"

definition is_verification_done :: "Task \<Rightarrow> error + bool" where
  "is_verification_done self =
     and_then (tags self) (\<lambda>ts. Inr (list_ex (contains (str ''verification-done-'')) ts))"

text \<open>
  The dictionary that \<^verbatim>\<open>to_dict\<close> returns, lines 163-187, and \<^verbatim>\<open>to_dict\<close> itself:
  the loop first, then the entries in the order they are written. \<^verbatim>\<open>to_dict\<close> is
  decorated with \<^verbatim>\<open>lru_cache\<close>; this is its body, which runs at the first call for a
  record.
\<close>

record task_dict =
  d_url :: pystr
  d_shortlink :: pystr
  d_number :: pystr
  d_title :: pystr
  d_short_title :: pystr
  d_distro :: "pystr option"
  d_source_package :: pystr
  d_source_package_name :: "pystr option"
  d_series :: "pystr option"
  d_importance :: pystr
  d_status :: pystr
  d_tags :: "pystr list"
  d_assignee :: "pystr option"
  d_is_maintainer_subscribed :: "bool option"
  d_is_last_activity_by_maintainer :: "bool option"
  d_is_updated_recently :: "bool option"
  d_is_old :: "bool option"
  d_is_verification_needed :: bool
  d_is_verification_done :: bool
  d_sibling_task_status :: "(pystr \<times> pystr) list"

definition to_dict_entries :: "env \<Rightarrow> Task \<Rightarrow> (pystr \<times> pystr) list \<Rightarrow> error + task_dict" where
  "to_dict_entries env self sibling_task_status =
     and_then (url self) (\<lambda>v_url.
     and_then (shortlink self) (\<lambda>v_shortlink.
     and_then (number self) (\<lambda>v_number.
     and_then (title self) (\<lambda>v_title.
     and_then (short_title self) (\<lambda>v_short_title.
     and_then (src self) (\<lambda>v_src.
     and_then (importance self) (\<lambda>v_importance.
     and_then (status self) (\<lambda>v_status.
     and_then (tags self) (\<lambda>v_tags.
     and_then (assignee self) (\<lambda>v_assignee.
     and_then (is_updated env self) (\<lambda>v_updated.
     and_then (is_old env self) (\<lambda>v_old.
     and_then (is_verification_needed self) (\<lambda>v_needed.
     and_then (is_verification_done self) (\<lambda>v_done.
       Inr \<lparr>d_url = v_url, d_shortlink = v_shortlink, d_number = v_number, d_title = v_title,
            d_short_title = v_short_title, d_distro = distro self, d_source_package = v_src,
            d_source_package_name = source_package_name self, d_series = series self,
            d_importance = v_importance, d_status = v_status, d_tags = v_tags,
            d_assignee = v_assignee, d_is_maintainer_subscribed = subscribed self,
            d_is_last_activity_by_maintainer = last_activity_ours self,
            d_is_updated_recently = v_updated, d_is_old = v_old,
            d_is_verification_needed = v_needed, d_is_verification_done = v_done,
            d_sibling_task_status = sibling_task_status\<rparr>))))))))))))))"

definition to_dict :: "env \<Rightarrow> Task \<Rightarrow> (error + task_dict) \<times> api_call list" where
  "to_dict env self =
     (case sibling_tasks self of
        Inl e \<Rightarrow> (Inl e, [])
      | Inr siblings \<Rightarrow>
          (case classify_siblings env self siblings [] of
             (Inl e, calls) \<Rightarrow> (Inl e, calls)
           | (Inr sibling_task_status, calls) \<Rightarrow>
               (to_dict_entries env self sibling_task_status, calls)))"

text \<open>
  \<^verbatim>\<open>Task.get_releases(self, length)\<close>, lines 347-380: the character of a series
  (\<^verbatim>\<open>series[0]\<close> raises on an empty name), the loop over the siblings, and the padding.
\<close>

definition release_char :: "(nat \<Rightarrow> pystr) \<Rightarrow> pystr \<Rightarrow> error + pystr" where
  "release_char table s =
     and_then (getitem s 0) (\<lambda>c. Inr (if c = MINUS then str ''D'' else upper table c))"

fun release_chars ::
  "(nat \<Rightarrow> pystr) \<Rightarrow> env \<Rightarrow> Task \<Rightarrow> (pystr \<times> bug_task) list \<Rightarrow> pystr \<Rightarrow>
     (error + pystr) \<times> api_call list"
where
  "release_chars table env self [] release_info = (Inr release_info, [])"
| "release_chars table env self ((s, sibling) # rest) release_info =
     (case release_char table s of
        Inl e \<Rightarrow> (Inl e, [])
      | Inr c \<Rightarrow>
          if lp_status sibling \<in> set (NOWORK_BUG_STATUSES env) then
            release_chars table env self rest (release_info @ mark c COLOR_GREEN)
          else
            (case is_in_unapproved env self of
               (Inl e, calls) \<Rightarrow> (Inl e, calls)
             | (Inr unapproved, calls) \<Rightarrow>
                 after calls
                   (if unapproved = Some True then
                      release_chars table env self rest (release_info @ mark c COLOR_CYAN)
                    else if lp_status sibling \<in> set (OPEN_BUG_STATUSES env) then
                      release_chars table env self rest (release_info @ mark c COLOR_YELLOW)
                    else release_chars table env self rest (release_info @ c))))"

definition get_releases ::
  "(nat \<Rightarrow> pystr) \<Rightarrow> env \<Rightarrow> Task \<Rightarrow> int \<Rightarrow> (error + pystr) \<times> api_call list"
where
  "get_releases table env self n =
     (case sibling_tasks self of
        Inl e \<Rightarrow> (Inl e, [])
      | Inr siblings \<Rightarrow>
          (case release_chars table env self siblings [] of
             (Inl e, calls) \<Rightarrow> (Inl e, calls)
           | (Inr release_info, calls) \<Rightarrow>
               (let printable = sub_non_capitals release_info;
                    p_len = int (length printable);
                    p_need = n - p_len
                in (Inr (if p_need > 0 then release_info @ replicate (nat p_need) SPACE
                         else release_info),
                    calls))))"

text \<open>\<^verbatim>\<open>Task.get_flags(self, newbug=False)\<close>, lines 394-408.\<close>

definition get_flags :: "env \<Rightarrow> Task \<Rightarrow> bool \<Rightarrow> error + pystr" where
  "get_flags env self newbug =
     (let verification_needed = mark (str ''v'') COLOR_CYAN;
          verification_done = mark (str ''V'') COLOR_GREEN;
          flags = [];
          flags = flags @ (if subscribed self = Some True then str ''*'' else str '' '');
          flags = flags @ (if last_activity_ours self = Some True then str ''+'' else str '' '')
      in and_then (is_updated env self) (\<lambda>updated.
         and_then (if updated = Some True then Inr (str ''U'')
                   else and_then (is_old env self) (\<lambda>old.
                          Inr (if old = Some True then str ''O'' else str '' ''))) (\<lambda>age_flag.
         (let flags = flags @ age_flag;
              flags = flags @ (if newbug then str ''N'' else str '' '')
          in and_then (is_verification_needed self) (\<lambda>needed.
             (let flags = flags @ (if needed then verification_needed else str '' '')
              in and_then (is_verification_done self) (\<lambda>done_flag.
                 Inr (flags @ (if done_flag then verification_done else str '' '')))))))))"

section \<open>What a terminal shows\<close>

text \<open>
  A terminal prints nothing for a colour sequence: the escape character and everything
  up to and including the next letter \<^verbatim>\<open>m\<close>. \<open>strip_markers\<close> is the text that is left,
  the undecorated string, whose length is the number of columns that the string fills.
\<close>

fun strip_markers :: "pystr \<Rightarrow> pystr" and skip_marker :: "pystr \<Rightarrow> pystr" where
  "strip_markers [] = []"
| "strip_markers (c # cs) = (if c = ESC then skip_marker cs else c # strip_markers cs)"
| "skip_marker [] = []"
| "skip_marker (c # cs) = (if c = 109 then strip_markers cs else skip_marker cs)"

section \<open>Notions that the properties are stated with\<close>

text \<open>
  The string that is left of \<open>s\<close> when its first \<open>k\<close> fields are dropped, a field
  ending at a space: everything after the \<open>k\<close>-th space, and nothing when \<open>s\<close> has
  fewer spaces.
\<close>

fun drop_fields :: "nat \<Rightarrow> pystr \<Rightarrow> pystr" where
  "drop_fields 0 s = s"
| "drop_fields (Suc k) s =
     (case dropWhile (\<lambda>c. c \<noteq> SPACE) s of [] \<Rightarrow> [] | _ # r \<Rightarrow> drop_fields k r)"

text \<open>
  The segments of a task's link, counted as the code counts them: segment 4 is the
  distribution, segment 5 the series, the third segment from the end the source package.
  A task is a sibling of a record with source package \<open>name\<close> when its distribution is
  \<^verbatim>\<open>ubuntu\<close> and its source package is \<open>name\<close>; its series is segment 5, with
  \<^verbatim>\<open>+source\<close> read as \<^verbatim>\<open>-devel\<close>.
\<close>

definition segment :: "bug_task \<Rightarrow> int \<Rightarrow> error + pystr" where
  "segment b i = getitem (split_on SLASH (lp_link b)) i"

definition is_sibling :: "pystr \<Rightarrow> bug_task \<Rightarrow> bool" where
  "is_sibling name b \<longleftrightarrow> segment b 4 = Inr (str ''ubuntu'') \<and> segment b (- 3) = Inr name"

definition series_of :: "bug_task \<Rightarrow> pystr" where
  "series_of b =
     (case segment b 5 of
        Inl _ \<Rightarrow> []
      | Inr s \<Rightarrow> if s = str ''+source'' then str ''-devel'' else s)"

text \<open>The distinct elements of a list, in the order in which they first occur.\<close>

primrec first_occurrences :: "'a list \<Rightarrow> 'a list" where
  "first_occurrences [] = []"
| "first_occurrences (x # xs) = x # filter (\<lambda>y. y \<noteq> x) (first_occurrences xs)"







text \<open>
  The classification of a sibling, in the words of the specification: closed when its
  status is a no-work status, else unapproved when the unapproved check is true, else
  open when its status is an open status, else pending. \<open>decorate\<close> is the marker that
  goes with each class, none for pending. \<open>needs_check\<close>: the status of the sibling is
  no no-work status.
\<close>

definition sibling_status :: "env \<Rightarrow> bool option \<Rightarrow> bug_task \<Rightarrow> pystr" where
  "sibling_status env unapproved b =
     (if lp_status b \<in> set (NOWORK_BUG_STATUSES env) then str ''closed''
      else if unapproved = Some True then str ''unapproved''
      else if lp_status b \<in> set (OPEN_BUG_STATUSES env) then str ''open''
      else str ''pending'')"

definition decorate :: "env \<Rightarrow> bool option \<Rightarrow> bug_task \<Rightarrow> pystr \<Rightarrow> pystr" where
  "decorate env unapproved b c =
     (if lp_status b \<in> set (NOWORK_BUG_STATUSES env) then mark c COLOR_GREEN
      else if unapproved = Some True then mark c COLOR_CYAN
      else if lp_status b \<in> set (OPEN_BUG_STATUSES env) then mark c COLOR_YELLOW
      else c)"

definition needs_check :: "env \<Rightarrow> bug_task \<Rightarrow> bool" where
  "needs_check env b \<longleftrightarrow> lp_status b \<notin> set (NOWORK_BUG_STATUSES env)"

text \<open>
  The character of a series: \<^verbatim>\<open>D\<close> for a series that begins with \<^verbatim>\<open>-\<close>, else the
  first character in upper case. A series \<open>starts_with_letter\<close> when it begins with
  \<^verbatim>\<open>-\<close> or with an ASCII letter.
\<close>

definition series_char :: "(nat \<Rightarrow> pystr) \<Rightarrow> pystr \<Rightarrow> pystr" where
  "series_char table s = (if hd s = MINUS then str ''D'' else upper table (hd s))"


section \<open>Example records\<close>

text \<open>
  A bug of the package \<^verbatim>\<open>foo\<close>: a task of the bug at a path below the API root, and a
  record that wraps the task at such a path, with the fields that \<^verbatim>\<open>__init__\<close> derives
  from the path. \<open>unwrapped_record\<close> is \<^verbatim>\<open>Task()\<close>, which wraps nothing.
\<close>

definition example_bug_task :: "string \<Rightarrow> string \<Rightarrow> bug_task" where
  "example_bug_task path st =
     \<lparr>lp_link = str ''https://api.launchpad.net/devel/'' @ str path, lp_status = str st\<rparr>"

definition example_lp_task :: "string \<Rightarrow> bug_task list \<Rightarrow> lp_task" where
  "example_lp_task path tasks =
     \<lparr>lp_link = str ''https://api.launchpad.net/devel/'' @ str path,
      lp_status = str ''New'',
      lp_title = str ''Bug #7 in foo (Ubuntu): '' @ [QUOTE] @ str ''x y'' @ [QUOTE],
      lp_importance = str ''Medium'',
      lp_assignee_link = None,
      lp_resource_type_link = DISTRIBUTION_SOURCE_PACKAGE_RESOURCE_TYPE_LINK,
      lp_tags = [],
      lp_date_last_updated = 0,
      lp_bug_tasks = tasks\<rparr>"

definition example_record :: "nat \<Rightarrow> string \<Rightarrow> string \<Rightarrow> bug_task list \<Rightarrow> Task" where
  "example_record i series_name path tasks =
     \<lparr>ident = i, subscribed = None, last_activity_ours = None, distro = Some (str ''ubuntu''),
      source_package_name = Some (str ''foo''), series = Some (str series_name),
      obj = Some (example_lp_task path tasks)\<rparr>"

definition devel_record :: "nat \<Rightarrow> Task" where
  "devel_record i = example_record i ''-devel'' ''ubuntu/+source/foo/+bug/7'' []"

text \<open>
  A bug with five tasks: \<^verbatim>\<open>foo\<close> in the development series of Ubuntu, in Debian and in
  the Ubuntu series \<^verbatim>\<open>trusty\<close> (where it is fixed), another package in \<^verbatim>\<open>trusty\<close>,
  and a project. \<open>trusty_record\<close> wraps the third task.
\<close>

definition example_tasks :: "bug_task list" where
  "example_tasks =
     [example_bug_task ''ubuntu/+source/foo/+bug/7'' ''New'',
      example_bug_task ''debian/+source/foo/+bug/7'' ''New'',
      example_bug_task ''ubuntu/trusty/+source/foo/+bug/7'' ''Fix Released'',
      example_bug_task ''ubuntu/trusty/+source/bar/+bug/7'' ''New'',
      example_bug_task ''juju/+bug/7'' ''New'']"

definition trusty_record :: Task where
  "trusty_record = example_record 1 ''trusty'' ''ubuntu/trusty/+source/foo/+bug/7'' example_tasks"

text \<open>
  A record of \<^verbatim>\<open>trusty\<close> whose bug has two open tasks, in \<^verbatim>\<open>trusty\<close> and in the
  development series; and a record whose bug has a task in a series named \<^verbatim>\<open>9x\<close>.
\<close>

definition open_record :: Task where
  "open_record =
     example_record 2 ''trusty'' ''ubuntu/trusty/+source/foo/+bug/7''
       [example_bug_task ''ubuntu/trusty/+source/foo/+bug/7'' ''New'',
        example_bug_task ''ubuntu/+source/foo/+bug/7'' ''New'']"


definition unwrapped_record :: Task where
  "unwrapped_record =
     \<lparr>ident = 0, subscribed = None, last_activity_ours = None, distro = None,
      source_package_name = None, series = None, obj = None\<rparr>"

text \<open>A session whose queues are empty, and class attributes with no threshold set.\<close>

definition example_session :: launchpad where
  "example_session = \<lparr>package_uploads = (\<lambda>s name. [])\<rparr>"

definition example_env :: env where
  "example_env =
     \<lparr>AGE = None, OLD = None, LP = Some example_session,
      NOWORK_BUG_STATUSES = [str ''Fix Released''], OPEN_BUG_STATUSES = [str ''New'']\<rparr>"

text \<open>
  A queue of five uploads. The first is neither a source upload nor a copy, the second a
  copy from an archive that cannot be read, the third a source upload without a changes
  file; the fourth is a source upload that fixes the bugs 1 and 2, the fifth a copy that
  fixes the bugs 5 and 7. \<open>queue_env\<close> has a session whose queue for \<^verbatim>\<open>foo\<close> in
  \<^verbatim>\<open>trusty\<close> holds the given uploads.
\<close>

definition example_upload ::
  "bool \<Rightarrow> bool \<Rightarrow> bool \<Rightarrow> pystr list list \<Rightarrow> pystr option \<Rightarrow> pystr option \<Rightarrow> upload"
where
  "example_upload is_source is_copy readable published changes_url bugs =
     \<lparr>contains_source = is_source, contains_copy = is_copy,
      source_file_urls = [str ''foo.dsc''], copy_archive_readable = readable,
      published_sources = published, changes_file_url = changes_url, changes_file = bugs\<rparr>"

definition example_uploads :: "upload list" where
  "example_uploads =
     [example_upload False False True [] (Some (str ''a.changes'')) (Some (str ''7'')),
      example_upload False True False [] (Some (str ''b.changes'')) (Some (str ''7'')),
      example_upload True False True [] None (Some (str ''7'')),
      example_upload True False True [] (Some (str ''d.changes'')) (Some (str ''1 2'')),
      example_upload False True True [[str ''foo.dsc'']] (Some (str ''e.changes''))
        (Some (str ''5 7''))]"

definition queue_env :: "upload list \<Rightarrow> env" where
  "queue_env uploads =
     \<lparr>AGE = None, OLD = None,
      LP = Some \<lparr>package_uploads =
             (\<lambda>s name. if s = str ''trusty'' \<and> name = str ''foo'' then uploads else [])\<rparr>,
      NOWORK_BUG_STATUSES = [str ''Fix Released''], OPEN_BUG_STATUSES = [str ''New'']\<rparr>"

section \<open>Splitting and joining\<close>

lemma split_on_not_Nil [simp]: "split_on sep s \<noteq> []"
  by (induction s) (auto split: list.splits)


lemma split_on_unfold:
  "split_on sep s =
     takeWhile (\<lambda>c. c \<noteq> sep) s #
       (case dropWhile (\<lambda>c. c \<noteq> sep) s of [] \<Rightarrow> [] | _ # r \<Rightarrow> split_on sep r)"
  by (induction s) (auto split: list.splits)

lemma join_split_on: "join [sep] (split_on sep s) = s"
proof (induction s)
  case Nil
  show ?case by simp
next
  case (Cons c cs)
  obtain w ws where ws: "split_on sep cs = w # ws"
    by (cases "split_on sep cs") simp_all
  show ?case
  proof (cases "c = sep")
    case True
    show ?thesis using Cons True ws by simp
  next
    case False
    show ?thesis using Cons False ws by (cases ws) simp_all
  qed
qed

lemma join_drop_split_on:
  "join [SPACE] (drop k (split_on SPACE s)) = drop_fields k s"
proof (induction k arbitrary: s)
  case 0
  show ?case by (simp add: join_split_on)
next
  case (Suc k)
  show ?case
  proof (cases "dropWhile (\<lambda>c. c \<noteq> SPACE) s")
    case Nil
    have "split_on SPACE s = [takeWhile (\<lambda>c. c \<noteq> SPACE) s]"
      by (subst split_on_unfold) (simp only: Nil list.case)
    then show ?thesis by (simp only: Nil drop_fields.simps list.case) simp
  next
    case (Cons c r)
    have "split_on SPACE s = takeWhile (\<lambda>c. c \<noteq> SPACE) s # split_on SPACE r"
      by (subst split_on_unfold) (simp only: Cons list.case)
    then show ?thesis using Suc [of r] by (simp only: Cons drop_fields.simps list.case) simp
  qed
qed

lemma slice_from_nonneg: "0 \<le> k \<Longrightarrow> slice_from k xs = drop (nat k) xs"
  by (simp add: slice_from_def)

lemma getitem_long:
  assumes "6 \<le> length xs"
  shows "\<exists>a. getitem xs 4 = Inr a" "\<exists>a. getitem xs (- 3) = Inr a" "\<exists>a. getitem xs 5 = Inr a"
  using assms by (auto simp: getitem_def Let_def)

section \<open>The example records\<close>

lemma Task_init_devel_record:
  "Task_init i (Some (example_lp_task ''ubuntu/+source/foo/+bug/7'' [])) = Inr (devel_record i)"
  by (simp add: Task_init_def devel_record_def example_record_def example_lp_task_def
        and_then_def getitem_def str_def SLASH_def)

lemma Task_init_unwrapped_record: "Task_init 0 None = Inr unwrapped_record"
  by (simp add: Task_init_def unwrapped_record_def)



lemma src_example_record: "src (example_record i series_name path tasks) = Inr (str ''foo'')"
  by (simp add: example_record_def example_lp_task_def src_def title_def and_then_def
        getitem_def str_def SPACE_def QUOTE_def)

lemma number_example_record: "number (example_record i series_name path tasks) = Inr (str ''7'')"
  by (simp add: example_record_def example_lp_task_def number_def title_def and_then_def
        getitem_def remove_char_def str_def SPACE_def HASH_def QUOTE_def)

lemma sibling_tasks_trusty_record:
  "sibling_tasks trusty_record =
     Inr [(str ''-devel'', example_bug_task ''ubuntu/+source/foo/+bug/7'' ''New''),
          (str ''trusty'', example_bug_task ''ubuntu/trusty/+source/foo/+bug/7'' ''Fix Released'')]"
proof -
  have "obj trusty_record =
      Some (example_lp_task ''ubuntu/trusty/+source/foo/+bug/7'' example_tasks)"
    by (simp add: trusty_record_def example_record_def)
  moreover have "lp_bug_tasks (example_lp_task ''ubuntu/trusty/+source/foo/+bug/7'' example_tasks) =
      example_tasks"
    by (simp add: example_lp_task_def)
  moreover have "collect_siblings (Inr (str ''foo'')) example_tasks [] =
     Inr [(str ''-devel'', example_bug_task ''ubuntu/+source/foo/+bug/7'' ''New''),
          (str ''trusty'', example_bug_task ''ubuntu/trusty/+source/foo/+bug/7'' ''Fix Released'')]"
    by (simp add: example_tasks_def example_bug_task_def and_then_def getitem_def str_def
          SLASH_def)
  ultimately show ?thesis
    by (simp add: sibling_tasks_def trusty_record_def src_example_record)
qed

section \<open>Truncation\<close>

lemma slice_to_nonneg: "0 \<le> n \<Longrightarrow> slice_to n xs = take (nat n) xs"
  by (simp add: slice_to_def)

lemma truncate_string_short:
  "int (length s) \<le> n \<Longrightarrow> truncate_string s n = s"
  by (simp add: truncate_string_def slice_to_def)

lemma truncate_string_long:
  assumes "1 \<le> n" and "n < int (length s)"
  shows "truncate_string s n = take (nat (n - 1)) s @ [ELLIPSIS]"
proof -
  have "butlast (take (nat n) s) = take (nat n - 1) s"
    using assms by (simp add: butlast_take)
  moreover have "nat n - 1 = nat (n - 1)"
    using assms by simp
  ultimately show ?thesis
    using assms by (simp add: truncate_string_def slice_to_nonneg)
qed

text \<open>
  C7, as the claim states it, at length 0: the one-character string \<^verbatim>\<open>"a"\<close> is longer
  than 0 characters, and \<^verbatim>\<open>truncate_string("a", 0)\<close> is the ellipsis alone, a string of
  one character and not of 0 characters.
\<close>

theorem truncate_string_zero_length:
  "0 < int (length (str ''a'')) \<and>
   truncate_string (str ''a'') 0 = [ELLIPSIS] \<and>
   int (length (truncate_string (str ''a'') 0)) \<noteq> 0"
  by (simp add: truncate_string_def slice_to_def str_def)

text \<open>
  C7, amended to lengths of at least 1: a string of at most \<open>n\<close> characters is returned
  unchanged; a longer one becomes exactly \<open>n\<close> characters, the first \<open>n - 1\<close> characters
  of the string followed by the ellipsis. The two examples of the claim are the last two
  conjuncts.
\<close>

theorem truncate_string_spec:
  "(1 \<le> n \<longrightarrow>
      (int (length s) \<le> n \<longrightarrow> truncate_string s n = s) \<and>
      (n < int (length s) \<longrightarrow>
         int (length (truncate_string s n)) = n \<and>
         last (truncate_string s n) = ELLIPSIS \<and>
         take (nat (n - 1)) (truncate_string s n) = take (nat (n - 1)) s)) \<and>
   truncate_string (str ''abcdefghij'') 5 = str ''abcd'' @ [ELLIPSIS] \<and>
   truncate_string (str ''abc'') 5 = str ''abc''"
proof (intro conjI impI)
  assume "1 \<le> n" and "int (length s) \<le> n"
  then show "truncate_string s n = s"
    by (simp add: truncate_string_short)
next
  assume n: "1 \<le> n" "n < int (length s)"
  have eq: "truncate_string s n = take (nat (n - 1)) s @ [ELLIPSIS]"
    using n by (rule truncate_string_long)
  show "int (length (truncate_string s n)) = n"
    using n by (simp add: eq)
  show "last (truncate_string s n) = ELLIPSIS"
    by (simp add: eq)
  show "take (nat (n - 1)) (truncate_string s n) = take (nat (n - 1)) s"
    using n by (simp add: eq)
next
  show "truncate_string (str ''abcdefghij'') 5 = str ''abcd'' @ [ELLIPSIS]"
    by (simp add: truncate_string_def slice_to_def str_def)
next
  show "truncate_string (str ''abc'') 5 = str ''abc''"
    by (simp add: truncate_string_def slice_to_def str_def)
qed

theorem truncate_string_spec_witness:
  "(1::int) \<le> 3 \<and> (3::int) < int (length (str ''abcdef'')) \<and>
   int (length (truncate_string (str ''abcdef'') 3)) = 3 \<and>
   last (truncate_string (str ''abcdef'') 3) = ELLIPSIS \<and>
   take 2 (truncate_string (str ''abcdef'') 3) = str ''ab'' \<and>
   (1::int) \<le> 7 \<and> int (length (str ''abcdef'')) \<le> 7 \<and>
   truncate_string (str ''abcdef'') 7 = str ''abcdef''"
  using truncate_string_spec [of 3 "str ''abcdef''"] truncate_string_spec [of 7 "str ''abcdef''"]
  by (simp add: str_def)

section \<open>The short title\<close>

lemma start_field_nonneg: "start_field link = Inr k \<Longrightarrow> 0 \<le> k"
  by (auto simp: start_field_def split: if_splits)

lemma short_title_drop_fields:
  assumes "obj self = Some lp" and "start_field (lp_resource_type_link lp) = Inr k"
  shows "short_title self = Inr (remove_char QUOTE (drop_fields (nat k) (lp_title lp)))"
  using assms start_field_nonneg [OF assms(2)]
  by (simp add: short_title_def and_then_def title_def slice_from_nonneg join_drop_split_on)

text \<open>
  C8: the number of leading tokens that \<^verbatim>\<open>short_title\<close> drops is 4 for a distribution,
  5 for a distribution source package, 6 for a source package and 7 for a project; the
  short title of a record with one of these targets is its title with that many leading
  tokens dropped and every double quote removed. A token ends at a space, as
  \<^verbatim>\<open>split(' ')\<close> has it. With the title \<^verbatim>\<open>A B C D E F\<close> the short title is \<^verbatim>\<open>F\<close> for
  a distribution source package and \<^verbatim>\<open>E F\<close> for a distribution.
\<close>

theorem short_title_spec:
  "start_field DISTRIBUTION_RESOURCE_TYPE_LINK = Inr 4 \<and>
   start_field DISTRIBUTION_SOURCE_PACKAGE_RESOURCE_TYPE_LINK = Inr 5 \<and>
   start_field SOURCE_PACKAGE_RESOURCE_TYPE_LINK = Inr 6 \<and>
   start_field PROJECT_RESOURCE_TYPE_LINK = Inr 7 \<and>
   (obj self = Some lp \<and> start_field (lp_resource_type_link lp) = Inr k \<longrightarrow>
      short_title self = Inr (remove_char QUOTE (drop_fields (nat k) (lp_title lp))) \<and>
      (\<forall>t. short_title self = Inr t \<longrightarrow> QUOTE \<notin> set t)) \<and>
   (obj self = Some lp \<and> lp_title lp = str ''A B C D E F'' \<and>
    lp_resource_type_link lp = DISTRIBUTION_SOURCE_PACKAGE_RESOURCE_TYPE_LINK \<longrightarrow>
      short_title self = Inr (str ''F'')) \<and>
   (obj self = Some lp \<and> lp_title lp = str ''A B C D E F'' \<and>
    lp_resource_type_link lp = DISTRIBUTION_RESOURCE_TYPE_LINK \<longrightarrow>
      short_title self = Inr (str ''E F''))"
proof -
  have links:
    "start_field DISTRIBUTION_RESOURCE_TYPE_LINK = Inr 4"
    "start_field DISTRIBUTION_SOURCE_PACKAGE_RESOURCE_TYPE_LINK = Inr 5"
    "start_field SOURCE_PACKAGE_RESOURCE_TYPE_LINK = Inr 6"
    "start_field PROJECT_RESOURCE_TYPE_LINK = Inr 7"
    by (simp_all add: start_field_def DISTRIBUTION_RESOURCE_TYPE_LINK_def
        DISTRIBUTION_SOURCE_PACKAGE_RESOURCE_TYPE_LINK_def SOURCE_PACKAGE_RESOURCE_TYPE_LINK_def
        PROJECT_RESOURCE_TYPE_LINK_def str_def)
  have general: "obj self = Some lp \<and> start_field (lp_resource_type_link lp) = Inr k \<longrightarrow>
      short_title self = Inr (remove_char QUOTE (drop_fields (nat k) (lp_title lp))) \<and>
      (\<forall>t. short_title self = Inr t \<longrightarrow> QUOTE \<notin> set t)"
    by (auto simp: short_title_drop_fields remove_char_def)
  have dsp: "obj self = Some lp \<and> lp_title lp = str ''A B C D E F'' \<and>
      lp_resource_type_link lp = DISTRIBUTION_SOURCE_PACKAGE_RESOURCE_TYPE_LINK \<longrightarrow>
      short_title self = Inr (str ''F'')"
    by (simp add: short_title_def links and_then_def title_def slice_from_def
        str_def SPACE_def remove_char_def QUOTE_def)
  have dist: "obj self = Some lp \<and> lp_title lp = str ''A B C D E F'' \<and>
      lp_resource_type_link lp = DISTRIBUTION_RESOURCE_TYPE_LINK \<longrightarrow>
      short_title self = Inr (str ''E F'')"
    by (simp add: short_title_def links and_then_def title_def slice_from_def
        str_def SPACE_def remove_char_def QUOTE_def)
  show ?thesis
    using links general dsp dist by blast
qed

theorem short_title_spec_witness:
  "obj (devel_record 0) = Some (example_lp_task ''ubuntu/+source/foo/+bug/7'' []) \<and>
   start_field (lp_resource_type_link (example_lp_task ''ubuntu/+source/foo/+bug/7'' [])) = Inr 5 \<and>
   short_title (devel_record 0) = Inr (str ''x y'') \<and>
   short_title
     (devel_record 0
        \<lparr>obj := Some ((example_lp_task ''ubuntu/+source/foo/+bug/7'' [])
                       \<lparr>lp_title := str ''A B C D E F''\<rparr>)\<rparr>) = Inr (str ''F'') \<and>
   short_title
     (devel_record 0
        \<lparr>obj := Some ((example_lp_task ''ubuntu/+bug/7'' [])
                       \<lparr>lp_title := str ''A B C D E F'',
                        lp_resource_type_link := DISTRIBUTION_RESOURCE_TYPE_LINK\<rparr>)\<rparr>) =
     Inr (str ''E F'')"
proof -
  let ?lp = "example_lp_task ''ubuntu/+source/foo/+bug/7'' []"
  let ?lp1 = "?lp \<lparr>lp_title := str ''A B C D E F''\<rparr>"
  let ?lp2 = "(example_lp_task ''ubuntu/+bug/7'' [])
      \<lparr>lp_title := str ''A B C D E F'', lp_resource_type_link := DISTRIBUTION_RESOURCE_TYPE_LINK\<rparr>"
  have wrapped: "obj (devel_record 0) = Some ?lp"
    by (simp add: devel_record_def example_record_def)
  have link: "lp_resource_type_link ?lp = DISTRIBUTION_SOURCE_PACKAGE_RESOURCE_TYPE_LINK"
    by (simp add: example_lp_task_def)
  have five: "start_field (lp_resource_type_link ?lp) = Inr 5"
    using short_title_spec [of "devel_record 0" ?lp 5] by (simp only: link)
  have "short_title (devel_record 0) = Inr (remove_char QUOTE (drop_fields (nat 5) (lp_title ?lp)))"
    using short_title_spec [of "devel_record 0" ?lp 5] wrapped five by blast
  moreover have "remove_char QUOTE (drop_fields (nat 5) (lp_title ?lp)) = str ''x y''"
    by (simp add: example_lp_task_def eval_nat_numeral remove_char_def QUOTE_def SPACE_def str_def)
  ultimately have quoted: "short_title (devel_record 0) = Inr (str ''x y'')"
    by simp
  have "obj (devel_record 0 \<lparr>obj := Some ?lp1\<rparr>) = Some ?lp1 \<and> lp_title ?lp1 = str ''A B C D E F'' \<and>
      lp_resource_type_link ?lp1 = DISTRIBUTION_SOURCE_PACKAGE_RESOURCE_TYPE_LINK"
    by (simp add: example_lp_task_def)
  then have dsp: "short_title (devel_record 0 \<lparr>obj := Some ?lp1\<rparr>) = Inr (str ''F'')"
    using short_title_spec [of "devel_record 0 \<lparr>obj := Some ?lp1\<rparr>" ?lp1 5] by blast
  have "obj (devel_record 0 \<lparr>obj := Some ?lp2\<rparr>) = Some ?lp2 \<and> lp_title ?lp2 = str ''A B C D E F'' \<and>
      lp_resource_type_link ?lp2 = DISTRIBUTION_RESOURCE_TYPE_LINK"
    by simp
  then have dist: "short_title (devel_record 0 \<lparr>obj := Some ?lp2\<rparr>) = Inr (str ''E F'')"
    using short_title_spec [of "devel_record 0 \<lparr>obj := Some ?lp2\<rparr>" ?lp2 4] by blast
  show ?thesis
    using wrapped five quoted dsp dist by simp
qed

section \<open>The bug number and its cache\<close>




subsection \<open>An entry survives the reads of fewer than 128 other records\<close>






subsection \<open>The reads of 128 other records drop it\<close>






section \<open>The unapproved check of a record without a released series\<close>

lemma is_in_unapproved_without_session:
  "LP env = None \<Longrightarrow> is_in_unapproved env self = (Inl AttributeError, [])"
  by (simp add: is_in_unapproved_def)

text \<open>
  C2, as the claim states it, on a record of the series \<^verbatim>\<open>-devel\<close>: the check returns
  \<^verbatim>\<open>None\<close>, and it has made a request, since line 300 looks the \<^verbatim>\<open>ubuntu\<close>
  distribution up on the session before line 302 tests the series.
\<close>

theorem is_in_unapproved_devel_asks_session:
  "series (devel_record 0) = Some (str ''-devel'') \<and>
   fst (is_in_unapproved example_env (devel_record 0)) = Inr None \<and>
   snd (is_in_unapproved example_env (devel_record 0)) = [Get_distribution (str ''ubuntu'')] \<and>
   snd (is_in_unapproved example_env (devel_record 0)) \<noteq> []"
  by (simp add: is_in_unapproved_def after_def example_env_def devel_record_def
        example_record_def)

text \<open>
  C2, amended: with a session set, for every record whose series is absent, empty or
  \<^verbatim>\<open>-devel\<close>, the check returns \<^verbatim>\<open>None\<close> (and not \<^verbatim>\<open>False\<close>) after exactly one
  request, the lookup of the \<^verbatim>\<open>ubuntu\<close> distribution on the session: it asks for no
  series, no queue, no upload and no changes file.
\<close>

theorem is_in_unapproved_without_series:
  assumes "LP env = Some lp"
    and "series self = None \<or> series self = Some [] \<or> series self = Some (str ''-devel'')"
  shows "is_in_unapproved env self = (Inr None, [Get_distribution (str ''ubuntu'')]) \<and>
    fst (is_in_unapproved env self) \<noteq> Inr (Some False)"
  using assms by (auto simp: is_in_unapproved_def after_def)

theorem is_in_unapproved_without_series_witness:
  "LP example_env = Some example_session \<and> series unwrapped_record = None \<and>
   is_in_unapproved example_env unwrapped_record =
     (Inr None, [Get_distribution (str ''ubuntu'')]) \<and>
   series (devel_record 1) = Some (str ''-devel'') \<and>
   is_in_unapproved example_env (devel_record 1) =
     (Inr None, [Get_distribution (str ''ubuntu'')])"
proof -
  have session: "LP example_env = Some example_session"
    by (simp add: example_env_def)
  have absent: "series unwrapped_record = None"
    by (simp add: unwrapped_record_def)
  have devel: "series (devel_record 1) = Some (str ''-devel'')"
    by (simp add: devel_record_def example_record_def)
  show ?thesis
    using is_in_unapproved_without_series [of example_env example_session unwrapped_record]
      is_in_unapproved_without_series [of example_env example_session "devel_record 1"]
      session absent devel
    by simp
qed

section \<open>The flags of a fresh record\<close>

lemma Task_init_flags:
  "Task_init i lp_task = Inr self \<Longrightarrow> subscribed self = None \<and> last_activity_ours self = None"
  by (auto simp: Task_init_def and_then_def Let_def split: option.splits sum.splits)

text \<open>
  C10, as the claim states it, on the record \<^verbatim>\<open>Task()\<close>: it is freshly constructed, its
  two flags are \<^verbatim>\<open>None\<close> and no threshold is set, and \<^verbatim>\<open>get_flags(newbug=False)\<close>
  raises \<^verbatim>\<open>AttributeError\<close>, because the record wraps no task and line 406 reads the
  tags of the task.
\<close>

theorem get_flags_of_unwrapped_record:
  "Task_init 0 None = Inr unwrapped_record \<and>
   subscribed unwrapped_record = None \<and> last_activity_ours unwrapped_record = None \<and>
   AGE example_env = None \<and> OLD example_env = None \<and>
   get_flags example_env unwrapped_record False = Inl AttributeError"
  by (simp add: Task_init_def unwrapped_record_def example_env_def get_flags_def
        is_updated_def is_old_def is_verification_needed_def tags_def and_then_def)

text \<open>
  C10, amended: for a record whose flags \<^verbatim>\<open>subscribed\<close> and \<^verbatim>\<open>last_activity_ours\<close>
  are still \<^verbatim>\<open>None\<close>, with the thresholds \<^verbatim>\<open>AGE\<close> and \<^verbatim>\<open>OLD\<close> unset,
  \<^verbatim>\<open>_is_updated()\<close> and \<^verbatim>\<open>_is_old()\<close> return \<^verbatim>\<open>None\<close>, neither \<^verbatim>\<open>False\<close> nor an
  error; and when the record wraps a task, \<^verbatim>\<open>get_flags(newbug=False)\<close> succeeds, with a
  space in the positions of subscribed, last activity ours, updated or old (and new bug),
  followed by the two verification marks.
\<close>

theorem fresh_record_flags:
  assumes "AGE env = None" and "OLD env = None"
    and "subscribed self = None" and "last_activity_ours self = None"
  shows "is_updated env self = Inr None \<and> is_old env self = Inr None \<and>
    is_updated env self \<noteq> Inr (Some False) \<and> is_old env self \<noteq> Inr (Some False) \<and>
    (obj self = Some lp \<longrightarrow>
       get_flags env self False =
         Inr ([SPACE, SPACE, SPACE, SPACE] @
              (if list_ex (contains (str ''verification-needed-'')) (lp_tags lp)
               then mark (str ''v'') COLOR_CYAN else [SPACE]) @
              (if list_ex (contains (str ''verification-done-'')) (lp_tags lp)
               then mark (str ''V'') COLOR_GREEN else [SPACE])))"
  using assms
  by (simp add: is_updated_def is_old_def get_flags_def and_then_def
        is_verification_needed_def is_verification_done_def tags_def str_def SPACE_def)

theorem fresh_record_flags_witness:
  "AGE example_env = None \<and> OLD example_env = None \<and>
   Task_init 0 (Some (example_lp_task ''ubuntu/+source/foo/+bug/7'' [])) = Inr (devel_record 0) \<and>
   subscribed (devel_record 0) = None \<and> last_activity_ours (devel_record 0) = None \<and>
   is_updated example_env (devel_record 0) = Inr None \<and>
   is_old example_env (devel_record 0) = Inr None \<and>
   get_flags example_env (devel_record 0) False = Inr (str ''      '')"
proof -
  let ?lp = "example_lp_task ''ubuntu/+source/foo/+bug/7'' []"
  have thresholds: "AGE example_env = None" "OLD example_env = None"
    by (simp_all add: example_env_def)
  have flags: "subscribed (devel_record 0) = None" "last_activity_ours (devel_record 0) = None"
    by (simp_all add: devel_record_def example_record_def)
  have wrapped: "obj (devel_record 0) = Some ?lp"
    by (simp add: devel_record_def example_record_def)
  have tags: "lp_tags ?lp = []"
    by (simp add: example_lp_task_def)
  show ?thesis
    using fresh_record_flags [OF thresholds flags, of ?lp] thresholds flags wrapped
    by (simp add: tags Task_init_devel_record str_def SPACE_def)
qed

section \<open>The sibling tasks\<close>

lemma keys_dict_setitem:
  "map fst (dict_setitem k v d) = (if k \<in> set (map fst d) then map fst d else map fst d @ [k])"
  by (induction d) auto

lemma map_of_dict_setitem: "map_of (dict_setitem k v d) = (map_of d)(k \<mapsto> v)"
  by (induction d) (auto simp: fun_eq_iff)

lemma dict_setitem_new: "k \<notin> fst ` set d \<Longrightarrow> dict_setitem k v d = d @ [(k, v)]"
  by (induction d) auto

lemma distinct_dict_setitem: "distinct (map fst d) \<Longrightarrow> distinct (map fst (dict_setitem k v d))"
  by (simp add: keys_dict_setitem)

lemma set_first_occurrences: "set (first_occurrences xs) = set xs"
  by (induction xs) auto

lemma distinct_first_occurrences: "distinct (first_occurrences xs)"
  by (induction xs) auto

lemma collect_siblings_foldl:
  assumes "\<forall>b \<in> set bs. 6 \<le> length (split_on SLASH (lp_link b))"
  shows "collect_siblings (Inr name) bs acc =
           Inr (foldl (\<lambda>siblings b. dict_setitem (series_of b) b siblings) acc
                  (filter (is_sibling name) bs))"
  using assms
proof (induction bs arbitrary: acc)
  case Nil
  show ?case by simp
next
  case (Cons b bs)
  have len: "6 \<le> length (split_on SLASH (lp_link b))"
    using Cons.prems by simp
  obtain d p s where seg: "segment b 4 = Inr d" "segment b (- 3) = Inr p" "segment b 5 = Inr s"
    using getitem_long [OF len] unfolding segment_def by blast
  have rest: "\<And>acc. collect_siblings (Inr name) bs acc =
           Inr (foldl (\<lambda>siblings b. dict_setitem (series_of b) b siblings) acc
                  (filter (is_sibling name) bs))"
    using Cons.IH Cons.prems by simp
  have sib: "is_sibling name b \<longleftrightarrow> d = str ''ubuntu'' \<and> p = name"
    using seg by (simp add: is_sibling_def)
  have ser: "series_of b = (if s = str ''+source'' then str ''-devel'' else s)"
    using seg by (simp add: series_of_def)
  have "collect_siblings (Inr name) (b # bs) acc =
          (if d \<noteq> str ''ubuntu'' then collect_siblings (Inr name) bs acc
           else if p \<noteq> name then collect_siblings (Inr name) bs acc
           else collect_siblings (Inr name) bs (dict_setitem (series_of b) b acc))"
    using seg by (simp add: and_then_def ser segment_def Let_def)
  then show ?case
    by (simp add: rest sib)
qed

lemma keys_foldl_setitem:
  "map fst (foldl (\<lambda>siblings b. dict_setitem (f b) b siblings) acc bs) =
     map fst acc @ filter (\<lambda>k. k \<notin> fst ` set acc) (first_occurrences (map f bs))"
proof (induction bs arbitrary: acc)
  case Nil
  show ?case by simp
next
  case (Cons b bs)
  show ?case
  proof (cases "f b \<in> fst ` set acc")
    case True
    have "fst ` set (dict_setitem (f b) b acc) = fst ` set acc"
      using True keys_dict_setitem [of "f b" b acc] by (metis list.set_map)
    moreover have
      "filter (\<lambda>k. k \<notin> fst ` set acc) (filter (\<lambda>y. y \<noteq> f b) (first_occurrences (map f bs))) =
       filter (\<lambda>k. k \<notin> fst ` set acc) (first_occurrences (map f bs))"
      using True by (auto intro: filter_cong)
    ultimately show ?thesis
      using True by (simp add: Cons.IH keys_dict_setitem)
  next
    case False
    have "fst ` set (dict_setitem (f b) b acc) = insert (f b) (fst ` set acc)"
      using False by (simp add: dict_setitem_new)
    moreover have
      "filter (\<lambda>k. k \<noteq> f b \<and> k \<notin> fst ` set acc) (first_occurrences (map f bs)) =
       filter (\<lambda>k. k \<notin> fst ` set acc) (filter (\<lambda>y. y \<noteq> f b) (first_occurrences (map f bs)))"
      by (auto intro: filter_cong)
    ultimately show ?thesis
      using False by (simp add: Cons.IH keys_dict_setitem)
  qed
qed

lemma map_of_foldl_setitem:
  "map_of (foldl (\<lambda>siblings b. dict_setitem (f b) b siblings) acc bs) =
     map_of acc ++ map_of (rev (map (\<lambda>b. (f b, b)) bs))"
proof (induction bs arbitrary: acc)
  case Nil
  show ?case by simp
next
  case (Cons b bs)
  have "map_of (rev (map (\<lambda>b. (f b, b)) (b # bs))) =
          [f b \<mapsto> b] ++ map_of (rev (map (\<lambda>b. (f b, b)) bs))"
    by simp
  moreover have "(map_of acc)(f b \<mapsto> b) = map_of acc ++ [f b \<mapsto> b]"
    by simp
  ultimately show ?case
    by (simp only: foldl.simps Cons.IH map_of_dict_setitem map_add_assoc)
qed

lemma foldl_setitem_distinct:
  assumes "distinct (map f bs)" and "f ` set bs \<inter> fst ` set acc = {}"
  shows "foldl (\<lambda>siblings b. dict_setitem (f b) b siblings) acc bs = acc @ map (\<lambda>b. (f b, b)) bs"
  using assms
proof (induction bs arbitrary: acc)
  case Nil
  show ?case by simp
next
  case (Cons b bs)
  have new: "f b \<notin> fst ` set acc"
    using Cons.prems(2) by auto
  have "f ` set bs \<inter> fst ` set (acc @ [(f b, b)]) = {}"
    using Cons.prems by auto
  then show ?case
    using Cons.IH [of "acc @ [(f b, b)]"] Cons.prems(1) new by (simp add: dict_setitem_new)
qed

lemma distinct_collect_siblings:
  "collect_siblings source bs acc = Inr siblings \<Longrightarrow> distinct (map fst acc) \<Longrightarrow>
   distinct (map fst siblings)"
proof (induction bs arbitrary: acc)
  case Nil
  then show ?case by simp
next
  case (Cons b bs)
  then show ?case
    by (auto simp: and_then_def Let_def distinct_dict_setitem split: sum.splits if_splits)
qed

lemma distinct_sibling_tasks: "sibling_tasks self = Inr siblings \<Longrightarrow> distinct (map fst siblings)"
  using distinct_collect_siblings [of _ _ "[]" siblings]
  by (auto simp: sibling_tasks_def split: option.splits)

text \<open>
  C6: for a record that wraps a task, with source package \<open>name\<close>, whose bug has tasks
  with links of the shape that Launchpad gives them (at least six segments), the sibling
  tasks are taken from exactly the tasks of the bug whose distribution segment is
  \<^verbatim>\<open>ubuntu\<close> and whose source package segment is \<open>name\<close>, every other task being left
  out. The keys of the mapping are the series of these tasks, \<^verbatim>\<open>+source\<close> read as
  \<^verbatim>\<open>-devel\<close>, in the order in which the series are first discovered; a series maps to
  the last discovered task of that series; and when no series occurs twice the mapping
  lists exactly these tasks, in the order of discovery.
\<close>

theorem sibling_tasks_spec:
  assumes "obj self = Some lp" and "src self = Inr name"
    and "\<forall>b \<in> set (lp_bug_tasks lp). 6 \<le> length (split_on SLASH (lp_link b))"
  shows "\<exists>siblings. sibling_tasks self = Inr siblings \<and>
      map fst siblings =
        first_occurrences (map series_of (filter (is_sibling name) (lp_bug_tasks lp))) \<and>
      map_of siblings =
        map_of (rev (map (\<lambda>b. (series_of b, b)) (filter (is_sibling name) (lp_bug_tasks lp)))) \<and>
      set (map snd siblings) \<subseteq> set (filter (is_sibling name) (lp_bug_tasks lp)) \<and>
      (distinct (map series_of (filter (is_sibling name) (lp_bug_tasks lp))) \<longrightarrow>
         siblings = map (\<lambda>b. (series_of b, b)) (filter (is_sibling name) (lp_bug_tasks lp)))"
proof -
  let ?kept = "filter (is_sibling name) (lp_bug_tasks lp)"
  let ?siblings = "foldl (\<lambda>siblings b. dict_setitem (series_of b) b siblings) [] ?kept"
  have result: "sibling_tasks self = Inr ?siblings"
    using assms by (simp add: sibling_tasks_def collect_siblings_foldl)
  have keys: "map fst ?siblings = first_occurrences (map series_of ?kept)"
    by (simp add: keys_foldl_setitem)
  have lookup: "map_of ?siblings = map_of (rev (map (\<lambda>b. (series_of b, b)) ?kept))"
    by (simp add: map_of_foldl_setitem)
  have only: "set (map snd ?siblings) \<subseteq> set ?kept"
  proof
    fix b
    assume "b \<in> set (map snd ?siblings)"
    then obtain s where "(s, b) \<in> set ?siblings"
      by auto
    moreover have "distinct (map fst ?siblings)"
      by (simp add: keys distinct_first_occurrences)
    ultimately have "map_of ?siblings s = Some b"
      by simp
    then have "map_of (rev (map (\<lambda>b. (series_of b, b)) ?kept)) s = Some b"
      by (simp only: lookup)
    then have "(s, b) \<in> set (rev (map (\<lambda>b. (series_of b, b)) ?kept))"
      by (rule map_of_SomeD)
    then show "b \<in> set ?kept"
      by auto
  qed
  have all: "distinct (map series_of ?kept) \<longrightarrow> ?siblings = map (\<lambda>b. (series_of b, b)) ?kept"
    using foldl_setitem_distinct [of series_of ?kept "[]"] by simp
  show ?thesis
    using result keys lookup only all by blast
qed

theorem sibling_tasks_spec_witness:
  "obj trusty_record = Some (example_lp_task ''ubuntu/trusty/+source/foo/+bug/7'' example_tasks) \<and>
   src trusty_record = Inr (str ''foo'') \<and>
   list_all (\<lambda>b. 6 \<le> length (split_on SLASH (lp_link b))) example_tasks \<and>
   filter (is_sibling (str ''foo'')) example_tasks =
     [example_bug_task ''ubuntu/+source/foo/+bug/7'' ''New'',
      example_bug_task ''ubuntu/trusty/+source/foo/+bug/7'' ''Fix Released''] \<and>
   sibling_tasks trusty_record =
     Inr [(str ''-devel'', example_bug_task ''ubuntu/+source/foo/+bug/7'' ''New''),
          (str ''trusty'', example_bug_task ''ubuntu/trusty/+source/foo/+bug/7'' ''Fix Released'')]"
proof -
  let ?lp = "example_lp_task ''ubuntu/trusty/+source/foo/+bug/7'' example_tasks"
  let ?devel = "example_bug_task ''ubuntu/+source/foo/+bug/7'' ''New''"
  let ?trusty = "example_bug_task ''ubuntu/trusty/+source/foo/+bug/7'' ''Fix Released''"
  have wrapped: "obj trusty_record = Some ?lp"
    by (simp add: trusty_record_def example_record_def)
  have source: "src trusty_record = Inr (str ''foo'')"
    by (simp add: trusty_record_def src_example_record)
  have tasks: "lp_bug_tasks ?lp = example_tasks"
    by (simp add: example_lp_task_def)
  have shape: "\<forall>b \<in> set (lp_bug_tasks ?lp). 6 \<le> length (split_on SLASH (lp_link b))"
    unfolding tasks by (simp add: example_tasks_def example_bug_task_def str_def SLASH_def)
  have kept: "filter (is_sibling (str ''foo'')) example_tasks = [?devel, ?trusty]"
    by (simp add: example_tasks_def example_bug_task_def is_sibling_def segment_def getitem_def
          str_def SLASH_def)
  have names: "map series_of [?devel, ?trusty] = [str ''-devel'', str ''trusty'']"
    by (simp add: example_bug_task_def series_of_def segment_def getitem_def str_def SLASH_def)
  obtain siblings where "sibling_tasks trusty_record = Inr siblings"
    and "distinct (map series_of (filter (is_sibling (str ''foo'')) (lp_bug_tasks ?lp))) \<longrightarrow>
      siblings =
        map (\<lambda>b. (series_of b, b)) (filter (is_sibling (str ''foo'')) (lp_bug_tasks ?lp))"
    using sibling_tasks_spec [OF wrapped source shape] by blast
  moreover have "distinct (map series_of [?devel, ?trusty])"
    unfolding names by (simp add: str_def)
  ultimately have "sibling_tasks trusty_record = Inr (map (\<lambda>b. (series_of b, b)) [?devel, ?trusty])"
    unfolding tasks kept by simp
  then have "sibling_tasks trusty_record = Inr [(str ''-devel'', ?devel), (str ''trusty'', ?trusty)]"
    using names by simp
  then show ?thesis
    using wrapped source shape [unfolded tasks] kept by (simp add: list_all_iff)
qed

section \<open>The scan of the unapproved queue\<close>









lemma is_in_unapproved_calls:
  assumes "is_in_unapproved env self = (Inr unapproved, calls)"
  shows "calls \<noteq> [] \<and> hd calls = Get_distribution (str ''ubuntu'')"
  using assms by (auto simp: is_in_unapproved_def after_def split: option.splits)



section \<open>The classification of the siblings\<close>

lemma checks_replicate:
  "concat (map (\<lambda>(s, b). if P b then calls else []) siblings) =
     concat (replicate (length (filter (\<lambda>(s, b). P b) siblings)) calls)"
  by (induction siblings) auto

lemma classify_siblings_result:
  assumes "is_in_unapproved env self = (Inr unapproved, calls)"
    and "distinct (map fst siblings)" and "fst ` set siblings \<inter> fst ` set acc = {}"
  shows "classify_siblings env self siblings acc =
     (Inr (acc @ map (\<lambda>(s, b). (s, sibling_status env unapproved b)) siblings),
      concat (map (\<lambda>(s, b). if needs_check env b then calls else []) siblings))"
  using assms(2,3)
proof (induction siblings arbitrary: acc)
  case Nil
  show ?case by simp
next
  case (Cons sb siblings)
  obtain s b where sb: "sb = (s, b)"
    by (cases sb)
  have new: "s \<notin> fst ` set acc"
    using Cons.prems(2) sb by auto
  have "fst ` set siblings \<inter> fst ` set (acc @ [(s, v)]) = {}" for v
    using Cons.prems sb by auto
  then have rest: "classify_siblings env self siblings (acc @ [(s, v)]) =
     (Inr ((acc @ [(s, v)]) @ map (\<lambda>(s, b). (s, sibling_status env unapproved b)) siblings),
      concat (map (\<lambda>(s, b). if needs_check env b then calls else []) siblings))" for v
    using Cons.IH [of "acc @ [(s, v)]"] Cons.prems(1) by simp
  have head: "classify_siblings env self ((s, b) # siblings) acc =
      after (if needs_check env b then calls else [])
        (classify_siblings env self siblings
           (dict_setitem s (sibling_status env unapproved b) acc))"
    by (simp add: assms(1) sibling_status_def needs_check_def after_def)
  show ?case
    unfolding sb head using new by (simp add: rest dict_setitem_new after_def)
qed

lemma classify_siblings_closed:
  assumes "\<forall>(s, b) \<in> set siblings. \<not> needs_check env b"
    and "distinct (map fst siblings)" and "fst ` set siblings \<inter> fst ` set acc = {}"
  shows "classify_siblings env self siblings acc =
     (Inr (acc @ map (\<lambda>(s, b). (s, str ''closed'')) siblings), [])"
  using assms
proof (induction siblings arbitrary: acc)
  case Nil
  show ?case by simp
next
  case (Cons sb siblings)
  obtain s b where sb: "sb = (s, b)"
    by (cases sb)
  have new: "s \<notin> fst ` set acc"
    using Cons.prems(3) sb by auto
  have "fst ` set siblings \<inter> fst ` set (acc @ [(s, str ''closed'')]) = {}"
    using Cons.prems sb by auto
  then have rest: "classify_siblings env self siblings (acc @ [(s, str ''closed'')]) =
     (Inr ((acc @ [(s, str ''closed'')]) @ map (\<lambda>(s, b). (s, str ''closed'')) siblings), [])"
    using Cons.IH [of "acc @ [(s, str ''closed'')]"] Cons.prems by simp
  show ?case
    using new Cons.prems(1) by (simp add: sb rest dict_setitem_new needs_check_def)
qed

lemma to_dict_classify:
  assumes "sibling_tasks self = Inr siblings"
    and "classify_siblings env self siblings [] = (Inr sibling_task_status, calls)"
  shows "to_dict env self = (to_dict_entries env self sibling_task_status, calls)"
  using assms by (simp add: to_dict_def)

lemma is_in_unapproved_trusty_record:
  "is_in_unapproved (queue_env example_uploads) trusty_record =
     (Inr (Some True),
      [Get_distribution (str ''ubuntu''), Get_series (str ''trusty''),
       Get_package_uploads (str ''trusty'') (str ''foo''),
       Copy_source_archive, Source_file_urls, Source_file_urls, Urlopen (str ''d.changes''),
       Copy_source_archive, Get_published_sources, Source_file_urls,
       Urlopen (str ''e.changes'')])"
proof -
  have "scan_uploads (Inr (str ''7'')) example_uploads =
     (Inr True,
      [Copy_source_archive, Source_file_urls, Source_file_urls, Urlopen (str ''d.changes''),
       Copy_source_archive, Get_published_sources, Source_file_urls,
       Urlopen (str ''e.changes'')])"
    by (simp add: example_uploads_def example_upload_def get_upload_source_urls_def after_def
          find_changes_bugs_def isspace_def str_def)
  moreover have "LP (queue_env example_uploads) =
      Some \<lparr>package_uploads =
        (\<lambda>s name. if s = str ''trusty'' \<and> name = str ''foo'' then example_uploads else [])\<rparr>"
    by (simp add: queue_env_def)
  moreover have "series trusty_record = Some (str ''trusty'')"
    by (simp add: trusty_record_def example_record_def)
  moreover have "str ''trusty'' \<noteq> []" "str ''trusty'' \<noteq> str ''-devel''"
    by (simp_all add: str_def)
  moreover have "src trusty_record = Inr (str ''foo'')"
    by (simp add: trusty_record_def src_example_record)
  moreover have "number trusty_record = Inr (str ''7'')"
    by (simp add: trusty_record_def number_example_record)
  ultimately show ?thesis
    by (simp add: is_in_unapproved_def after_def)
qed

text \<open>
  C4: the status that \<^verbatim>\<open>to_dict\<close> records for a sibling is \<^verbatim>\<open>closed\<close> when the
  sibling's status is one of the no-work statuses; else \<^verbatim>\<open>unapproved\<close> when the
  unapproved check of the record is true; else \<^verbatim>\<open>open\<close> when the sibling's status is
  one of the open statuses; else \<^verbatim>\<open>pending\<close>. The siblings keep their order. A
  sibling with a no-work status is \<^verbatim>\<open>closed\<close> also when the check is true, and when
  every sibling has a no-work status the check is not even made.
\<close>

theorem sibling_task_status_spec:
  assumes "sibling_tasks self = Inr siblings"
  shows "(\<forall>unapproved calls. is_in_unapproved env self = (Inr unapproved, calls) \<longrightarrow>
       fst (classify_siblings env self siblings []) =
         Inr (map (\<lambda>(s, b). (s, sibling_status env unapproved b)) siblings) \<and>
       fst (to_dict env self) =
         to_dict_entries env self
           (map (\<lambda>(s, b). (s, sibling_status env unapproved b)) siblings)) \<and>
     ((\<forall>(s, b) \<in> set siblings. lp_status b \<in> set (NOWORK_BUG_STATUSES env)) \<longrightarrow>
       classify_siblings env self siblings [] =
         (Inr (map (\<lambda>(s, b). (s, str ''closed'')) siblings), [])) \<and>
     (\<forall>b. lp_status b \<in> set (NOWORK_BUG_STATUSES env) \<longrightarrow>
       sibling_status env (Some True) b = str ''closed'' \<and>
       sibling_status env (Some True) b \<noteq> str ''unapproved'') \<and>
     (\<forall>b. lp_status b \<notin> set (NOWORK_BUG_STATUSES env) \<longrightarrow>
       sibling_status env (Some True) b = str ''unapproved'' \<and>
       (lp_status b \<in> set (OPEN_BUG_STATUSES env) \<longrightarrow>
          sibling_status env (Some False) b = str ''open'' \<and>
          sibling_status env None b = str ''open'') \<and>
       (lp_status b \<notin> set (OPEN_BUG_STATUSES env) \<longrightarrow>
          sibling_status env (Some False) b = str ''pending'' \<and>
          sibling_status env None b = str ''pending''))"
proof -
  have keys: "distinct (map fst siblings)"
    using assms by (rule distinct_sibling_tasks)
  have checked: "\<forall>unapproved calls. is_in_unapproved env self = (Inr unapproved, calls) \<longrightarrow>
       fst (classify_siblings env self siblings []) =
         Inr (map (\<lambda>(s, b). (s, sibling_status env unapproved b)) siblings) \<and>
       fst (to_dict env self) =
         to_dict_entries env self
           (map (\<lambda>(s, b). (s, sibling_status env unapproved b)) siblings)"
  proof (intro allI impI)
    fix unapproved calls
    assume check: "is_in_unapproved env self = (Inr unapproved, calls)"
    have loop: "classify_siblings env self siblings [] =
       (Inr (map (\<lambda>(s, b). (s, sibling_status env unapproved b)) siblings),
        concat (map (\<lambda>(s, b). if needs_check env b then calls else []) siblings))"
      using classify_siblings_result [OF check keys, of "[]"] by simp
    show "fst (classify_siblings env self siblings []) =
         Inr (map (\<lambda>(s, b). (s, sibling_status env unapproved b)) siblings) \<and>
       fst (to_dict env self) =
         to_dict_entries env self
           (map (\<lambda>(s, b). (s, sibling_status env unapproved b)) siblings)"
      using loop to_dict_classify [OF assms loop] by simp
  qed
  have closed: "(\<forall>(s, b) \<in> set siblings. lp_status b \<in> set (NOWORK_BUG_STATUSES env)) \<longrightarrow>
       classify_siblings env self siblings [] =
         (Inr (map (\<lambda>(s, b). (s, str ''closed'')) siblings), [])"
    using classify_siblings_closed [of siblings env "[]" self] keys
    by (auto simp: needs_check_def)
  have words: "str ''closed'' \<noteq> str ''unapproved''"
    by (simp add: str_def)
  show ?thesis
    using checked closed words by (simp add: sibling_status_def)
qed

theorem sibling_task_status_spec_witness:
  "sibling_tasks trusty_record =
     Inr [(str ''-devel'', example_bug_task ''ubuntu/+source/foo/+bug/7'' ''New''),
          (str ''trusty'', example_bug_task ''ubuntu/trusty/+source/foo/+bug/7'' ''Fix Released'')] \<and>
   fst (is_in_unapproved (queue_env example_uploads) trusty_record) = Inr (Some True) \<and>
   fst (classify_siblings (queue_env example_uploads) trusty_record
     [(str ''-devel'', example_bug_task ''ubuntu/+source/foo/+bug/7'' ''New''),
      (str ''trusty'', example_bug_task ''ubuntu/trusty/+source/foo/+bug/7'' ''Fix Released'')] []) =
     Inr [(str ''-devel'', str ''unapproved''), (str ''trusty'', str ''closed'')] \<and>
   classify_siblings (queue_env example_uploads) trusty_record
     [(str ''trusty'', example_bug_task ''ubuntu/trusty/+source/foo/+bug/7'' ''Fix Released'')] [] =
     (Inr [(str ''trusty'', str ''closed'')], [])"
proof -
  let ?devel = "example_bug_task ''ubuntu/+source/foo/+bug/7'' ''New''"
  let ?trusty = "example_bug_task ''ubuntu/trusty/+source/foo/+bug/7'' ''Fix Released''"
  let ?env = "queue_env example_uploads"
  have statuses: "sibling_status ?env (Some True) ?devel = str ''unapproved''"
    "sibling_status ?env (Some True) ?trusty = str ''closed''"
    by (simp_all add: sibling_status_def queue_env_def example_bug_task_def str_def)
  have "fst (classify_siblings ?env trusty_record
      [(str ''-devel'', ?devel), (str ''trusty'', ?trusty)] []) =
     Inr [(str ''-devel'', str ''unapproved''), (str ''trusty'', str ''closed'')]"
    using sibling_task_status_spec [OF sibling_tasks_trusty_record, of ?env]
      is_in_unapproved_trusty_record statuses
    by simp
  moreover have "classify_siblings ?env trusty_record [(str ''trusty'', ?trusty)] [] =
     (Inr [(str ''trusty'', str ''closed'')], [])"
    by (simp add: queue_env_def example_bug_task_def str_def)
  ultimately show ?thesis
    using sibling_tasks_trusty_record is_in_unapproved_trusty_record by simp
qed

section \<open>How often the unapproved check runs\<close>

lemma release_char_nonempty: "s \<noteq> [] \<Longrightarrow> release_char table s = Inr (series_char table s)"
  by (cases s) (simp_all add: release_char_def series_char_def getitem_def and_then_def)

lemma release_chars_result:
  assumes "is_in_unapproved env self = (Inr unapproved, calls)"
    and "\<forall>(s, b) \<in> set siblings. s \<noteq> []"
  shows "release_chars table env self siblings release_info =
     (Inr (release_info @
           concat (map (\<lambda>(s, b). decorate env unapproved b (series_char table s)) siblings)),
      concat (map (\<lambda>(s, b). if needs_check env b then calls else []) siblings))"
  using assms(2)
proof (induction siblings arbitrary: release_info)
  case Nil
  show ?case by simp
next
  case (Cons sb siblings)
  obtain s b where sb: "sb = (s, b)"
    by (cases sb)
  have c: "release_char table s = Inr (series_char table s)"
    using Cons.prems sb by (simp add: release_char_nonempty)
  have rest: "release_chars table env self siblings info =
     (Inr (info @
           concat (map (\<lambda>(s, b). decorate env unapproved b (series_char table s)) siblings)),
      concat (map (\<lambda>(s, b). if needs_check env b then calls else []) siblings))" for info
    using Cons.IH [of info] Cons.prems by simp
  have head: "release_chars table env self ((s, b) # siblings) release_info =
      after (if needs_check env b then calls else [])
        (release_chars table env self siblings
           (release_info @ decorate env unapproved b (series_char table s)))"
    by (simp add: c assms(1) decorate_def needs_check_def after_def)
  show ?case
    unfolding sb head by (simp add: rest after_def)
qed

lemma to_dict_calls:
  assumes "sibling_tasks self = Inr siblings"
    and "is_in_unapproved env self = (Inr unapproved, calls)"
  shows "snd (to_dict env self) =
     concat (replicate (length (filter (\<lambda>(s, b). needs_check env b) siblings)) calls)"
proof -
  have "classify_siblings env self siblings [] =
     (Inr (map (\<lambda>(s, b). (s, sibling_status env unapproved b)) siblings),
      concat (map (\<lambda>(s, b). if needs_check env b then calls else []) siblings))"
    using classify_siblings_result [OF assms(2) distinct_sibling_tasks [OF assms(1)], of "[]"]
    by simp
  then show ?thesis
    using to_dict_classify [OF assms(1)] by (simp add: checks_replicate)
qed

lemma get_releases_calls:
  assumes "sibling_tasks self = Inr siblings"
    and "is_in_unapproved env self = (Inr unapproved, calls)"
    and "\<forall>(s, b) \<in> set siblings. s \<noteq> []"
  shows "snd (get_releases table env self n) =
     concat (replicate (length (filter (\<lambda>(s, b). needs_check env b) siblings)) calls)"
  using release_chars_result [OF assms(2,3), of table "[]"]
  by (simp add: get_releases_def assms(1) Let_def checks_replicate)

lemma sibling_tasks_open_record:
  "sibling_tasks open_record =
     Inr [(str ''trusty'', example_bug_task ''ubuntu/trusty/+source/foo/+bug/7'' ''New''),
          (str ''-devel'', example_bug_task ''ubuntu/+source/foo/+bug/7'' ''New'')]"
proof -
  let ?tasks = "[example_bug_task ''ubuntu/trusty/+source/foo/+bug/7'' ''New'',
      example_bug_task ''ubuntu/+source/foo/+bug/7'' ''New'']"
  have "obj open_record = Some (example_lp_task ''ubuntu/trusty/+source/foo/+bug/7'' ?tasks)"
    by (simp add: open_record_def example_record_def)
  moreover have "lp_bug_tasks (example_lp_task ''ubuntu/trusty/+source/foo/+bug/7'' ?tasks) =
      ?tasks"
    by (simp add: example_lp_task_def)
  moreover have "collect_siblings (Inr (str ''foo'')) ?tasks [] =
     Inr [(str ''trusty'', example_bug_task ''ubuntu/trusty/+source/foo/+bug/7'' ''New''),
          (str ''-devel'', example_bug_task ''ubuntu/+source/foo/+bug/7'' ''New'')]"
    by (simp add: example_bug_task_def and_then_def getitem_def str_def SLASH_def)
  ultimately show ?thesis
    by (simp add: sibling_tasks_def open_record_def src_example_record)
qed

lemma is_in_unapproved_open_record:
  "is_in_unapproved example_env open_record =
     (Inr (Some False),
      [Get_distribution (str ''ubuntu''), Get_series (str ''trusty''),
       Get_package_uploads (str ''trusty'') (str ''foo'')])"
proof -
  have "LP example_env = Some example_session"
    by (simp add: example_env_def)
  moreover have "package_uploads example_session (str ''trusty'') (str ''foo'') = []"
    by (simp add: example_session_def)
  moreover have "series open_record = Some (str ''trusty'')"
    by (simp add: open_record_def example_record_def)
  moreover have "str ''trusty'' \<noteq> []" "str ''trusty'' \<noteq> str ''-devel''"
    by (simp_all add: str_def)
  moreover have "src open_record = Inr (str ''foo'')"
    by (simp add: open_record_def src_example_record)
  ultimately show ?thesis
    by (simp add: is_in_unapproved_def after_def)
qed

lemma open_record_needs_checks:
  "filter (\<lambda>(s, b). needs_check example_env b)
     [(str ''trusty'', example_bug_task ''ubuntu/trusty/+source/foo/+bug/7'' ''New''),
      (str ''-devel'', example_bug_task ''ubuntu/+source/foo/+bug/7'' ''New'')] =
     [(str ''trusty'', example_bug_task ''ubuntu/trusty/+source/foo/+bug/7'' ''New''),
      (str ''-devel'', example_bug_task ''ubuntu/+source/foo/+bug/7'' ''New'')]"
  by (simp add: needs_check_def example_env_def example_bug_task_def str_def)

text \<open>
  C1, as the claim states it, on a record of \<^verbatim>\<open>trusty\<close> whose bug has two open tasks.
  One check asks for the distribution, the series and the queue. \<^verbatim>\<open>to_dict\<close> makes
  these three requests twice, once for each sibling, and \<^verbatim>\<open>get_releases\<close> makes them
  twice again: the queue is asked four times in the run, not once.
\<close>

theorem unapproved_check_repeated:
  "snd (to_dict example_env open_record) =
     [Get_distribution (str ''ubuntu''), Get_series (str ''trusty''),
      Get_package_uploads (str ''trusty'') (str ''foo''),
      Get_distribution (str ''ubuntu''), Get_series (str ''trusty''),
      Get_package_uploads (str ''trusty'') (str ''foo'')] \<and>
   snd (get_releases (\<lambda>c. [c]) example_env open_record 7) =
     [Get_distribution (str ''ubuntu''), Get_series (str ''trusty''),
      Get_package_uploads (str ''trusty'') (str ''foo''),
      Get_distribution (str ''ubuntu''), Get_series (str ''trusty''),
      Get_package_uploads (str ''trusty'') (str ''foo'')] \<and>
   length (filter (\<lambda>c. c = Get_package_uploads (str ''trusty'') (str ''foo''))
     (snd (to_dict example_env open_record) @
      snd (get_releases (\<lambda>c. [c]) example_env open_record 7))) = 4"
proof -
  have names: "\<forall>(s, b) \<in> set
      [(str ''trusty'', example_bug_task ''ubuntu/trusty/+source/foo/+bug/7'' ''New''),
       (str ''-devel'', example_bug_task ''ubuntu/+source/foo/+bug/7'' ''New'')]. s \<noteq> []"
    by (simp add: str_def)
  have other: "Get_distribution (str ''ubuntu'') \<noteq> Get_package_uploads (str ''trusty'') (str ''foo'')"
    "Get_series (str ''trusty'') \<noteq> Get_package_uploads (str ''trusty'') (str ''foo'')"
    by simp_all
  have twice: "concat (replicate (length [a, b]) calls) = calls @ calls" for a b :: "pystr \<times> bug_task"
    and calls :: "api_call list"
    by (simp add: numeral_2_eq_2)
  show ?thesis
    using to_dict_calls [OF sibling_tasks_open_record is_in_unapproved_open_record,
        unfolded open_record_needs_checks twice]
      get_releases_calls [OF sibling_tasks_open_record is_in_unapproved_open_record names,
        of "\<lambda>c. [c]" 7, unfolded open_record_needs_checks twice]
    by (simp add: other)
qed

text \<open>
  C1, amended: nothing caches the result of \<^verbatim>\<open>_is_in_unapproved\<close>. When the check
  returns, \<^verbatim>\<open>to_dict\<close> runs it once for every sibling whose status is not a no-work
  status, and \<^verbatim>\<open>get_releases\<close> does the same again, each run repeating the requests
  of the check, of which there is at least one. A run that evaluates both makes the
  requests of the check twice for every such sibling.
\<close>

theorem unapproved_check_per_sibling:
  assumes "sibling_tasks self = Inr siblings"
    and "is_in_unapproved env self = (Inr unapproved, calls)"
    and "\<forall>(s, b) \<in> set siblings. s \<noteq> []"
  shows "snd (to_dict env self) =
       concat (replicate (length (filter (\<lambda>(s, b). needs_check env b) siblings)) calls) \<and>
     snd (get_releases table env self n) =
       concat (replicate (length (filter (\<lambda>(s, b). needs_check env b) siblings)) calls) \<and>
     calls \<noteq> [] \<and> hd calls = Get_distribution (str ''ubuntu'')"
  using to_dict_calls [OF assms(1,2)] get_releases_calls [OF assms, of table n]
    is_in_unapproved_calls [OF assms(2)]
  by simp

theorem unapproved_check_per_sibling_witness:
  "sibling_tasks open_record =
     Inr [(str ''trusty'', example_bug_task ''ubuntu/trusty/+source/foo/+bug/7'' ''New''),
          (str ''-devel'', example_bug_task ''ubuntu/+source/foo/+bug/7'' ''New'')] \<and>
   is_in_unapproved example_env open_record =
     (Inr (Some False),
      [Get_distribution (str ''ubuntu''), Get_series (str ''trusty''),
       Get_package_uploads (str ''trusty'') (str ''foo'')]) \<and>
   length (snd (to_dict example_env open_record)) = 6 \<and>
   length (snd (get_releases (\<lambda>c. [c]) example_env open_record 7)) = 6"
proof -
  have names: "\<forall>(s, b) \<in> set
      [(str ''trusty'', example_bug_task ''ubuntu/trusty/+source/foo/+bug/7'' ''New''),
       (str ''-devel'', example_bug_task ''ubuntu/+source/foo/+bug/7'' ''New'')]. s \<noteq> []"
    by (simp add: str_def)
  have twice: "concat (replicate (length [a, b]) calls) = calls @ calls" for a b :: "pystr \<times> bug_task"
    and calls :: "api_call list"
    by (simp add: numeral_2_eq_2)
  show ?thesis
    using unapproved_check_per_sibling [OF sibling_tasks_open_record
        is_in_unapproved_open_record names, of "\<lambda>c. [c]" 7,
        unfolded open_record_needs_checks twice]
      sibling_tasks_open_record is_in_unapproved_open_record
    by simp
qed

section \<open>The release characters\<close>














end
